theory Spec2Isabelle
  imports Main "HOL-Library.Sublist"
begin

section \<open>Errors and strings\<close>

text \<open>
  A JavaScript exception is a value: \<open>TypeError\<close> for a property access on
  \<open>undefined\<close>, \<open>SyntaxError\<close> for a \<open>JSON.parse\<close> that rejects its input,
  \<open>Error msg\<close> for \<open>throw new Error(msg)\<close>, and \<open>CollaboratorFailure\<close> for an
  external collaborator (source-map extraction, stylesheet processing) that throws.
\<close>

datatype error = TypeError | SyntaxError | Error string | CollaboratorFailure

text \<open>
  \<open>String.prototype.replace\<close> with a string pattern replaces the first occurrence
  of the pattern only (the replacement \<open>index.d.ts\<close> holds no \<open>$\<close> pattern, so it is
  inserted literally). \<open>endsWith\<close> is \<open>suffix\<close>.
\<close>

fun replace_first :: "string \<Rightarrow> string \<Rightarrow> string \<Rightarrow> string" where
  "replace_first pat rep [] = (if pat = [] then rep else [])"
| "replace_first pat rep (c # cs) =
     (if prefix pat (c # cs) then rep @ drop (length pat) (c # cs)
      else c # replace_first pat rep cs)"

text \<open>
  \<open>fileName.replace(/\.js(\.map)?$/, '.mjs$1')\<close>: the pattern is anchored at the end
  of the string, so it rewrites a trailing \<open>.js.map\<close> to \<open>.mjs.map\<close>, else a
  trailing \<open>.js\<close> to \<open>.mjs\<close>, and leaves every other name as it is.
\<close>

definition mjs_rename :: "string \<Rightarrow> string" where
  "mjs_rename fileName =
     (if suffix ''.js.map'' fileName
      then take (length fileName - 7) fileName @ ''.mjs.map''
      else if suffix ''.js'' fileName
      then take (length fileName - 3) fileName @ ''.mjs''
      else fileName)"

text \<open>JavaScript truthiness of an optional string: present and not empty.\<close>

definition truthy :: "string option \<Rightarrow> bool" where
  "truthy v = (case v of None \<Rightarrow> False | Some s \<Rightarrow> s \<noteq> [])"

section \<open>The build graph\<close>

record ng_entry_point =
  flatModuleFile :: string
  destinationPath :: string
  entryFile :: string

datatype node_state = Pending | InProgress | Done

record 'c entry_point_data =
  d_entryPoint :: ng_entry_point
  d_outDir :: string
  d_tsConfig :: "'c option"

datatype 'c payload = EntryPoint "'c entry_point_data" | NoPayload

record 'c node =
  url :: string
  state :: "node_state option"
  payload :: "'c payload"

record 'c build_graph =
  nodes :: "'c node list"
  edges :: "(string \<times> string) set"

text \<open>
  Modelled from the spec: the classes \<open>Node\<close> and \<open>BuildGraph\<close> are not among the
  sources. A node created on first reference carries its URI only. \<open>get\<close> is an exact
  lookup by URI, \<open>put\<close> inserts a node keyed by its URI and replaces a node already
  there, \<open>find\<close> returns the first node matching a predicate, and \<open>dependsOn\<close>
  records a directed edge, idempotently. Edges are kept by URI, the sole identity of
  a node.
\<close>

definition new_Node :: "string \<Rightarrow> 'c node" where
  "new_Node nodeUri = \<lparr>url = nodeUri, state = None, payload = NoPayload\<rparr>"

definition graph_get :: "'c build_graph \<Rightarrow> string \<Rightarrow> 'c node option" where
  "graph_get g nodeUri = find (\<lambda>n. url n = nodeUri) (nodes g)"

definition graph_put :: "'c node \<Rightarrow> 'c build_graph \<Rightarrow> 'c build_graph" where
  "graph_put n g =
     g\<lparr>nodes :=
        (if list_ex (\<lambda>m. url m = url n) (nodes g)
         then map (\<lambda>m. if url m = url n then n else m) (nodes g)
         else nodes g @ [n])\<rparr>"

definition graph_find :: "('c node \<Rightarrow> bool) \<Rightarrow> 'c build_graph \<Rightarrow> 'c node option" where
  "graph_find p g = find p (nodes g)"

definition dependsOn :: "string \<Rightarrow> string \<Rightarrow> 'c build_graph \<Rightarrow> 'c build_graph" where
  "dependsOn fromUri toUri g = g\<lparr>edges := insert (fromUri, toUri) (edges g)\<rparr>"

definition isEntryPointInProgress :: "'c node \<Rightarrow> bool" where
  "isEntryPointInProgress n =
     (case payload n of EntryPoint d \<Rightarrow> state n = Some InProgress | NoPayload \<Rightarrow> False)"

section \<open>The caches of an entry point\<close>

record source_file =
  sf_fileName :: string
  sf_text :: string
  sf_version :: "string option"

text \<open>
  Modelled from the spec: the class \<open>FileCache\<close> is not among the sources. It keeps
  one entry per file path; \<open>getOrCreate\<close> returns the entry of a path and creates an
  empty one when there is none. A field that is \<open>undefined\<close> is \<open>None\<close>.
\<close>

record cache_entry =
  ce_exists :: "bool option"
  ce_sourceFile :: "source_file option"
  ce_content :: "string option"
  ce_declarationFileName :: "string option"

type_synonym file_cache = "string \<rightharpoonup> cache_entry"

definition empty_entry :: cache_entry where
  "empty_entry = \<lparr>ce_exists = None, ce_sourceFile = None, ce_content = None,
     ce_declarationFileName = None\<rparr>"

definition getOrCreate :: "string \<Rightarrow> file_cache \<Rightarrow> cache_entry \<times> file_cache" where
  "getOrCreate fileName fc =
     (case fc fileName of
        Some c \<Rightarrow> (c, fc)
      | None \<Rightarrow> (empty_entry, fc(fileName \<mapsto> empty_entry)))"

record output_entry =
  oe_content :: string
  oe_version :: string
  oe_map :: "string option"

type_synonym output_cache = "string \<rightharpoonup> output_entry"

section \<open>The caching compiler host\<close>

text \<open>
  What the host reads from outside this module, as parameters: the path helpers
  (\<open>ensureUnixPath\<close>, \<open>fileUrl\<close> and Node's \<open>path\<close>), the digests, the source-map
  extraction \<open>convertSourceMap.fromComment(data).toJSON()\<close> (\<open>None\<close> when it throws),
  the underlying TypeScript host \<open>compilerHost\<close>, \<open>ts.resolveModuleName\<close>, and the
  optional stylesheet processor and inline style language.
\<close>

record env =
  ensureUnixPath :: "string \<Rightarrow> string"
  fileUrl :: "string \<Rightarrow> string"
  path_join :: "string \<Rightarrow> string \<Rightarrow> string"
  path_basename :: "string \<Rightarrow> string"
  path_dirname :: "string \<Rightarrow> string"
  path_resolve :: "string \<Rightarrow> string \<Rightarrow> string"
  path_extname :: "string \<Rightarrow> string"
  toLowerCase :: "string \<Rightarrow> string"
  sha256_hex :: "string \<Rightarrow> string"
  sha1_hex :: "string \<Rightarrow> string"
  fromComment_toJSON :: "string \<Rightarrow> string option"
  host_fileExists :: "string \<Rightarrow> bool"
  host_getSourceFile :: "string \<Rightarrow> nat \<Rightarrow> source_file option"
  host_readFile :: "string \<Rightarrow> string option"
  ts_resolveModuleName :: "string \<Rightarrow> string \<Rightarrow> string option"
  stylesheetProcessor :: "(string \<Rightarrow> string option \<Rightarrow> error + string) option"
  inlineStyleLanguage :: "string option"

text \<open>
  Every call that leaves the wrapper is logged, in order: the calls of the underlying
  host (a \<open>HostWriteFile\<close> is an emission to disk), the source-map extraction, the
  stylesheet processor and the module resolver.
\<close>

datatype host_call =
    HostFileExists string
  | HostGetSourceFile string nat
  | HostReadFile string
  | HostWriteFile string string bool
  | MapExtraction string
  | StyleProcess string "string option"
  | ResolveModuleName string string

record 'c host_state =
  graph :: "'c build_graph"
  sourcesFileCache :: file_cache
  outputCache :: output_cache
  calls :: "host_call list"

text \<open>
  The closure of \<open>cacheCompilerHost\<close>: the parameters and the constants computed once
  when the host is created (lines 64 to 67 of the source).
\<close>

record host =
  h_env :: env
  h_entryPointUrl :: string
  flatModuleFileDtsFilename :: string
  flatModuleFileDtsPath :: string
  hasIndexEntryFile :: bool

definition cacheCompilerHost :: "env \<Rightarrow> string \<Rightarrow> ng_entry_point \<Rightarrow> host" where
  "cacheCompilerHost e entryPointUrl ep =
     (let dtsFilename = flatModuleFile ep @ ''.d.ts'' in
      \<lparr>h_env = e,
       h_entryPointUrl = entryPointUrl,
       flatModuleFileDtsFilename = dtsFilename,
       flatModuleFileDtsPath = ensureUnixPath e (path_join e (destinationPath ep) dtsFilename),
       hasIndexEntryFile = (path_basename e (toLowerCase e (entryFile ep)) = ''index.ts'')\<rparr>)"

definition getNode :: "host \<Rightarrow> string \<Rightarrow> 'c build_graph \<Rightarrow> 'c node \<times> 'c build_graph" where
  "getNode h fileName g =
     (let nodeUri = fileUrl (h_env h) (ensureUnixPath (h_env h) fileName) in
      case graph_get g nodeUri of
        Some node \<Rightarrow> (node, g)
      | None \<Rightarrow> (new_Node nodeUri, graph_put (new_Node nodeUri) g))"

definition addDependee :: "host \<Rightarrow> string \<Rightarrow> 'c build_graph \<Rightarrow> 'c build_graph" where
  "addDependee h fileName g =
     (case getNode h fileName g of
        (node, g') \<Rightarrow> dependsOn (h_entryPointUrl h) (url node) g')"

definition fileExists :: "host \<Rightarrow> string \<Rightarrow> 'c host_state \<Rightarrow> bool \<times> 'c host_state" where
  "fileExists h fileName st =
     (case getOrCreate fileName (sourcesFileCache st) of
        (cache, fc) \<Rightarrow>
          (case ce_exists cache of
             Some b \<Rightarrow> (b, st\<lparr>sourcesFileCache := fc\<rparr>)
           | None \<Rightarrow>
               (let b = host_fileExists (h_env h) fileName in
                (b, st\<lparr>sourcesFileCache := fc(fileName \<mapsto> cache\<lparr>ce_exists := Some b\<rparr>),
                       calls := calls st @ [HostFileExists fileName]\<rparr>))))"

definition getSourceFile ::
  "host \<Rightarrow> string \<Rightarrow> nat \<Rightarrow> 'c host_state \<Rightarrow> source_file option \<times> 'c host_state" where
  "getSourceFile h fileName languageVersion st =
     (let g = addDependee h fileName (graph st) in
      case getOrCreate fileName (sourcesFileCache st) of
        (cache, fc) \<Rightarrow>
          (case ce_sourceFile cache of
             Some sf \<Rightarrow> (Some sf, st\<lparr>graph := g, sourcesFileCache := fc\<rparr>)
           | None \<Rightarrow>
               (let r = host_getSourceFile (h_env h) fileName languageVersion in
                (r, st\<lparr>graph := g,
                       sourcesFileCache := fc(fileName \<mapsto> cache\<lparr>ce_sourceFile := r\<rparr>),
                       calls := calls st @ [HostGetSourceFile fileName languageVersion]\<rparr>))))"

text \<open>
  The body of \<open>sourceFiles.forEach\<close> in \<open>writeFile\<close>: the declaration path of a
  source is recorded when the entry holds none (\<open>undefined\<close> or the empty string).
\<close>

definition record_declaration :: "string \<Rightarrow> file_cache \<Rightarrow> source_file \<Rightarrow> file_cache" where
  "record_declaration declPath fc source =
     (case getOrCreate (sf_fileName source) fc of
        (cache, fc') \<Rightarrow>
          (if \<not> truthy (ce_declarationFileName cache)
           then fc'(sf_fileName source \<mapsto> cache\<lparr>ce_declarationFileName := Some declPath\<rparr>)
           else fc'))"

text \<open>
  The source map of a non-declaration output (lines 124 to 128 of the source): none
  unless the output name ends in \<open>.mjs\<close>; the cached map when the cached version is
  the version of the data; else the extraction, which is logged. The calls made are
  returned with the map.
\<close>

definition output_map ::
  "host \<Rightarrow> string \<Rightarrow> string \<Rightarrow> string \<Rightarrow> output_cache
     \<Rightarrow> (error + string option) \<times> host_call list" where
  "output_map h fileName' version data oc =
     (if suffix ''.mjs'' fileName' then
        (case oc fileName' of
           Some cachedData \<Rightarrow>
             (if oe_version cachedData = version then (Inr (oe_map cachedData), [])
              else
                (case fromComment_toJSON (h_env h) data of
                   None \<Rightarrow> (Inl CollaboratorFailure, [MapExtraction data])
                 | Some m \<Rightarrow> (Inr (Some m), [MapExtraction data])))
         | None \<Rightarrow>
             (case fromComment_toJSON (h_env h) data of
                None \<Rightarrow> (Inl CollaboratorFailure, [MapExtraction data])
              | Some m \<Rightarrow> (Inr (Some m), [MapExtraction data])))
      else (Inr None, []))"

text \<open>
  The name a declaration file is emitted under (lines 100 to 110 of the source): the
  flattened declaration is renamed, every other declaration keeps its name.
\<close>

definition renamed_declaration :: "host \<Rightarrow> string \<Rightarrow> string" where
  "renamed_declaration h fileName =
     (if fileName = flatModuleFileDtsPath h
      then replace_first (flatModuleFileDtsFilename h) ''index.d.ts'' fileName
      else fileName)"

definition writeFile ::
  "host \<Rightarrow> string \<Rightarrow> string \<Rightarrow> bool \<Rightarrow> source_file list option \<Rightarrow> 'c host_state
     \<Rightarrow> (error + unit) \<times> 'c host_state" where
  "writeFile h fileName data writeByteOrderMark sourceFiles st =
     (if suffix ''.d.ts'' fileName then
        (if fileName = flatModuleFileDtsPath h \<and> hasIndexEntryFile h then (Inr (), st)
         else
           (let fileName' = renamed_declaration h fileName in
            case sourceFiles of
              None \<Rightarrow> (Inl TypeError, st)
            | Some sources \<Rightarrow>
                (Inr (),
                 st\<lparr>sourcesFileCache :=
                      foldl (record_declaration (ensureUnixPath (h_env h) fileName'))
                        (sourcesFileCache st) sources,
                    calls := calls st @ [HostWriteFile fileName' data writeByteOrderMark]\<rparr>)))
      else
        (let fileName' = mjs_rename fileName;
             version = sha256_hex (h_env h) data in
         case output_map h fileName' version data (outputCache st) of
           (Inl err, cs) \<Rightarrow> (Inl err, st\<lparr>calls := calls st @ cs\<rparr>)
         | (Inr m, cs) \<Rightarrow>
             (Inr (),
              st\<lparr>outputCache := (outputCache st)(fileName' \<mapsto>
                   \<lparr>oe_content = data, oe_version = version, oe_map = m\<rparr>),
                 calls := calls st @ cs @ [HostWriteFile fileName' data writeByteOrderMark]\<rparr>)))"

definition readFile :: "host \<Rightarrow> string \<Rightarrow> 'c host_state \<Rightarrow> string option \<times> 'c host_state" where
  "readFile h fileName st =
     (let g = addDependee h fileName (graph st) in
      case getOrCreate fileName (sourcesFileCache st) of
        (cache, fc) \<Rightarrow>
          (case ce_content cache of
             Some c \<Rightarrow> (Some c, st\<lparr>graph := g, sourcesFileCache := fc\<rparr>)
           | None \<Rightarrow>
               (let r = host_readFile (h_env h) fileName in
                (r, st\<lparr>graph := g,
                       sourcesFileCache := fc(fileName \<mapsto> cache\<lparr>ce_content := r\<rparr>),
                       calls := calls st @ [HostReadFile fileName]\<rparr>))))"

text \<open>
  \<open>resolveModuleNames\<close> hands every name to \<open>ts.resolveModuleName\<close> with the
  underlying host; it reads and writes neither the graph nor the caches.
\<close>

definition resolveModuleNames ::
  "host \<Rightarrow> string list \<Rightarrow> string \<Rightarrow> 'c host_state \<Rightarrow> string option list \<times> 'c host_state" where
  "resolveModuleNames h moduleNames containingFile st =
     (let containing = ensureUnixPath (h_env h) containingFile in
      (map (\<lambda>moduleName. ts_resolveModuleName (h_env h) moduleName containing) moduleNames,
       st\<lparr>calls := calls st @
            map (\<lambda>moduleName. ResolveModuleName moduleName containing) moduleNames\<rparr>))"

definition resourceNameToFileName ::
  "host \<Rightarrow> string \<Rightarrow> string \<Rightarrow> 'c host_state \<Rightarrow> string \<times> 'c host_state" where
  "resourceNameToFileName h resourceName containingFilePath st =
     (let resourcePath =
            path_resolve (h_env h) (path_dirname (h_env h) containingFilePath) resourceName in
      case getNode h containingFilePath (graph st) of
        (containingNode, g1) \<Rightarrow>
          (case getNode h resourcePath g1 of
             (resourceNode, g2) \<Rightarrow>
               (resourcePath,
                st\<lparr>graph := dependsOn (url containingNode) (url resourceNode) g2\<rparr>)))"

text \<open>\<open>/(?:html?|svg)$/.test(path.extname(fileName))\<close>\<close>

definition is_template :: "host \<Rightarrow> string \<Rightarrow> bool" where
  "is_template h fileName =
     (let ext = path_extname (h_env h) fileName in
      suffix ''htm'' ext \<or> suffix ''html'' ext \<or> suffix ''svg'' ext)"

definition readResource ::
  "host \<Rightarrow> string \<Rightarrow> 'c host_state \<Rightarrow> (error + string option) \<times> 'c host_state" where
  "readResource h fileName st =
     (let g = addDependee h fileName (graph st) in
      case getOrCreate fileName (sourcesFileCache st) of
        (cache, fc) \<Rightarrow>
          (case ce_content cache of
             Some c \<Rightarrow> (Inr (Some c), st\<lparr>graph := g, sourcesFileCache := fc\<rparr>)
           | None \<Rightarrow>
               (if \<not> host_fileExists (h_env h) fileName then
                  (Inl (Error (''Cannot read file '' @ fileName @ ''.'')),
                   st\<lparr>graph := g, sourcesFileCache := fc,
                      calls := calls st @ [HostFileExists fileName]\<rparr>)
                else if is_template h fileName then
                  (let r = host_readFile (h_env h) fileName in
                   (Inr r,
                    st\<lparr>graph := g,
                       sourcesFileCache :=
                         fc(fileName \<mapsto> cache\<lparr>ce_content := r, ce_exists := Some True\<rparr>),
                       calls := calls st @ [HostFileExists fileName, HostReadFile fileName]\<rparr>))
                else
                  (case stylesheetProcessor (h_env h) of
                     None \<Rightarrow>
                       (Inl TypeError,
                        st\<lparr>graph := g, sourcesFileCache := fc,
                           calls := calls st @ [HostFileExists fileName]\<rparr>)
                   | Some process \<Rightarrow>
                       (let raw = host_readFile (h_env h) fileName;
                            cs = [HostFileExists fileName, HostReadFile fileName,
                                  StyleProcess fileName raw] in
                        case process fileName raw of
                          Inl err \<Rightarrow>
                            (Inl err,
                             st\<lparr>graph := g, sourcesFileCache := fc, calls := calls st @ cs\<rparr>)
                        | Inr css \<Rightarrow>
                            (Inr (Some css),
                             st\<lparr>graph := g,
                                sourcesFileCache :=
                                  fc(fileName \<mapsto>
                                    cache\<lparr>ce_content := Some css, ce_exists := Some True\<rparr>),
                                calls := calls st @ cs\<rparr>))))))"

record resource_context =
  ctx_resourceFile :: "string option"
  ctx_type :: string
  ctx_containingFile :: string

text \<open>
  The body of \<open>if (inlineStyleLanguage) { ... }\<close> in \<open>transformResource\<close> (lines 204
  to 220 of the source).
\<close>

definition inline_style ::
  "host \<Rightarrow> string \<Rightarrow> string \<Rightarrow> string \<Rightarrow> 'c host_state
     \<Rightarrow> (error + string option) \<times> 'c host_state" where
  "inline_style h data containingFile language st =
     (let key = sha1_hex (h_env h) data;
          fileName = containingFile @ ''-'' @ key @ ''.'' @ language in
      case getOrCreate fileName (sourcesFileCache st) of
        (cache, fc) \<Rightarrow>
          (case ce_content cache of
             Some c \<Rightarrow>
               (Inr (Some c),
                st\<lparr>sourcesFileCache := fc(fileName \<mapsto> cache\<lparr>ce_exists := Some True\<rparr>)\<rparr>)
           | None \<Rightarrow>
               (case stylesheetProcessor (h_env h) of
                  None \<Rightarrow> (Inl TypeError, st\<lparr>sourcesFileCache := fc\<rparr>)
                | Some process \<Rightarrow>
                    (case process fileName (Some data) of
                       Inl err \<Rightarrow>
                         (Inl err,
                          st\<lparr>sourcesFileCache := fc,
                             calls := calls st @ [StyleProcess fileName (Some data)]\<rparr>)
                     | Inr css \<Rightarrow>
                         (case getNode h fileName (graph st) of
                            (virtualFileNode, g1) \<Rightarrow>
                              (case getNode h containingFile g1 of
                                 (containingFileNode, g2) \<Rightarrow>
                                   (Inr (Some css),
                                    st\<lparr>graph :=
                                         dependsOn (url virtualFileNode) (url containingFileNode) g2,
                                       sourcesFileCache :=
                                         fc(fileName \<mapsto>
                                           cache\<lparr>ce_content := Some css, ce_exists := Some True\<rparr>),
                                       calls := calls st @
                                         [StyleProcess fileName (Some data)]\<rparr>)))))))"

definition transformResource ::
  "host \<Rightarrow> string \<Rightarrow> resource_context \<Rightarrow> 'c host_state
     \<Rightarrow> (error + string option) \<times> 'c host_state" where
  "transformResource h data context st =
     (if truthy (ctx_resourceFile context) \<or> ctx_type context \<noteq> ''style'' then (Inr None, st)
      else
        (case inlineStyleLanguage (h_env h) of
           None \<Rightarrow> (Inr None, st)
         | Some language \<Rightarrow>
             (if language = [] then (Inr None, st)
              else inline_style h data (ctx_containingFile context) language st)))"

text \<open>
  The operations of the host as data, so that a run of the host is a list of
  operations. \<open>run_op\<close> keeps the state an operation leaves, also when it throws.
\<close>

datatype host_op =
    FileExists string
  | GetSourceFile string nat
  | WriteFile string string bool "source_file list option"
  | ReadFile string
  | ResolveModuleNames "string list" string
  | ResourceNameToFileName string string
  | ReadResource string
  | TransformResource string resource_context

fun run_op :: "host \<Rightarrow> 'c host_state \<Rightarrow> host_op \<Rightarrow> 'c host_state" where
  "run_op h st (FileExists f) = snd (fileExists h f st)"
| "run_op h st (GetSourceFile f v) = snd (getSourceFile h f v st)"
| "run_op h st (WriteFile f d b srcs) = snd (writeFile h f d b srcs st)"
| "run_op h st (ReadFile f) = snd (readFile h f st)"
| "run_op h st (ResolveModuleNames ms f) = snd (resolveModuleNames h ms f st)"
| "run_op h st (ResourceNameToFileName r f) = snd (resourceNameToFileName h r f st)"
| "run_op h st (ReadResource f) = snd (readResource h f st)"
| "run_op h st (TransformResource d c) = snd (transformResource h d c st)"

definition run_ops :: "host \<Rightarrow> host_op list \<Rightarrow> 'c host_state \<Rightarrow> 'c host_state" where
  "run_ops h ops st = foldl (run_op h) st ops"

text \<open>The fields of the cache entry of a path; all absent when the path has no entry.\<close>

definition cached_exists :: "file_cache \<Rightarrow> string \<Rightarrow> bool option" where
  "cached_exists fc f = (case fc f of None \<Rightarrow> None | Some c \<Rightarrow> ce_exists c)"

definition cached_sourceFile :: "file_cache \<Rightarrow> string \<Rightarrow> source_file option" where
  "cached_sourceFile fc f = (case fc f of None \<Rightarrow> None | Some c \<Rightarrow> ce_sourceFile c)"

definition cached_content :: "file_cache \<Rightarrow> string \<Rightarrow> string option" where
  "cached_content fc f = (case fc f of None \<Rightarrow> None | Some c \<Rightarrow> ce_content c)"

definition cached_declarationFileName :: "file_cache \<Rightarrow> string \<Rightarrow> string option" where
  "cached_declarationFileName fc f =
     (case fc f of None \<Rightarrow> None | Some c \<Rightarrow> ce_declarationFileName c)"

text \<open>The number of source-map extractions a state has logged.\<close>

definition is_extraction :: "host_call \<Rightarrow> bool" where
  "is_extraction c = (case c of MapExtraction d \<Rightarrow> True | _ \<Rightarrow> False)"

definition map_extractions :: "'c host_state \<Rightarrow> nat" where
  "map_extractions st = length (filter is_extraction (calls st))"

text \<open>
  What no operation of the host undoes, entry by entry: an entry stays; a parsed
  source file, a content and a non-empty declaration path stay what they are; an
  existence flag stays set, with its value or with \<open>true\<close>.
\<close>

definition entry_kept :: "cache_entry option \<Rightarrow> cache_entry option \<Rightarrow> bool" where
  "entry_kept a b =
     (case a of
        None \<Rightarrow> True
      | Some c \<Rightarrow>
          (case b of
             None \<Rightarrow> False
           | Some c' \<Rightarrow>
               (ce_exists c \<noteq> None \<longrightarrow> ce_exists c' = ce_exists c \<or> ce_exists c' = Some True)
               \<and> (ce_sourceFile c \<noteq> None \<longrightarrow> ce_sourceFile c' = ce_sourceFile c)
               \<and> (ce_content c \<noteq> None \<longrightarrow> ce_content c' = ce_content c)
               \<and> (truthy (ce_declarationFileName c)
                    \<longrightarrow> ce_declarationFileName c' = ce_declarationFileName c)))"

definition cache_kept :: "file_cache \<Rightarrow> file_cache \<Rightarrow> bool" where
  "cache_kept fc fc' = (\<forall>f. entry_kept (fc f) (fc' f))"

text \<open>
  The operations that assign \<open>cache.exists = true\<close> to the entry of the path \<open>f\<close>
  (lines 193 and 218 of the source): a resource read of \<open>f\<close>, and the transformation
  of an inline style whose synthetic path is \<open>f\<close>.
\<close>

definition overwrites_exists :: "host \<Rightarrow> string \<Rightarrow> host_op \<Rightarrow> bool" where
  "overwrites_exists h f op =
     (case op of
        ReadResource fileName \<Rightarrow> fileName = f
      | TransformResource data context \<Rightarrow>
          ctx_containingFile context @ ''-'' @ sha1_hex (h_env h) data @ ''.'' @
            (case inlineStyleLanguage (h_env h) of Some language \<Rightarrow> language | None \<Rightarrow> []) = f
      | _ \<Rightarrow> False)"

text \<open>An entry point's host starts on an empty graph and empty caches.\<close>

definition initial_state :: "'c host_state" where
  "initial_state =
     \<lparr>graph = \<lparr>nodes = [], edges = {}\<rparr>, sourcesFileCache = Map.empty,
      outputCache = Map.empty, calls = []\<rparr>"

text \<open>
  The node of a touched path is in the graph, and the entry point depends on it.
\<close>

definition registered :: "host \<Rightarrow> string \<Rightarrow> 'c build_graph \<Rightarrow> bool" where
  "registered h fileName g =
     (let nodeUri = fileUrl (h_env h) (ensureUnixPath (h_env h) fileName) in
      list_ex (\<lambda>n. url n = nodeUri) (nodes g) \<and> (h_entryPointUrl h, nodeUri) \<in> edges g)"

section \<open>Source versioning\<close>

text \<open>
  A program holds its source-file objects. Its method \<open>getSourceFiles\<close> returns
  these objects, and a wrapped method mutates them on the way: the method is a
  function on the objects, the identity for a program as TypeScript creates it, and
  a call stores what it returns.
\<close>

record program =
  p_files :: "source_file list"
  getSourceFiles :: "source_file list \<Rightarrow> source_file list"

definition createProgram :: "source_file list \<Rightarrow> program" where
  "createProgram files = \<lparr>p_files = files, getSourceFiles = (\<lambda>fs. fs)\<rparr>"

definition call_getSourceFiles :: "program \<Rightarrow> source_file list \<times> program" where
  "call_getSourceFiles p = (let fs = getSourceFiles p (p_files p) in (fs, p\<lparr>p_files := fs\<rparr>))"

definition stamp_version :: "(string \<Rightarrow> string) \<Rightarrow> source_file \<Rightarrow> source_file" where
  "stamp_version sha256 file =
     (case sf_version file of
        None \<Rightarrow> file\<lparr>sf_version := Some (sha256 (sf_text file))\<rparr>
      | Some v \<Rightarrow> file)"

definition augmentProgramWithVersioning :: "(string \<Rightarrow> string) \<Rightarrow> program \<Rightarrow> program" where
  "augmentProgramWithVersioning sha256 p =
     p\<lparr>getSourceFiles := (\<lambda>fs. map (stamp_version sha256) (getSourceFiles p fs))\<rparr>"

section \<open>The tsconfig transform\<close>

text \<open>
  \<open>entryPoint.data.tsConfig = tsConfig\<close> mutates the node that \<open>find\<close> returned:
  the first node of the graph that matches.
\<close>

fun update_first :: "('a \<Rightarrow> bool) \<Rightarrow> ('a \<Rightarrow> 'a) \<Rightarrow> 'a list \<Rightarrow> 'a list" where
  "update_first p f [] = []"
| "update_first p f (x # xs) = (if p x then f x # xs else x # update_first p f xs)"

definition set_tsConfig :: "'c \<Rightarrow> 'c node \<Rightarrow> 'c node" where
  "set_tsConfig tsConfig n =
     (case payload n of
        EntryPoint d \<Rightarrow> n\<lparr>payload := EntryPoint (d\<lparr>d_tsConfig := Some tsConfig\<rparr>)\<rparr>
      | NoPayload \<Rightarrow> n)"

text \<open>
  \<open>initializeTsConfig\<close> is not among the sources; it is a parameter. A \<open>find\<close> that
  matches nothing returns \<open>undefined\<close>, and reading its \<open>data\<close> throws.
\<close>

definition initTsConfigTransformFactory ::
  "('t \<Rightarrow> ng_entry_point \<Rightarrow> string \<Rightarrow> 'c) \<Rightarrow> 't \<Rightarrow> 'c build_graph \<Rightarrow> error + 'c build_graph" where
  "initTsConfigTransformFactory initializeTsConfig defaultTsConfig g =
     (case graph_find isEntryPointInProgress g of
        None \<Rightarrow> Inl TypeError
      | Some entryPoint \<Rightarrow>
          (case payload entryPoint of
             NoPayload \<Rightarrow> Inl TypeError
           | EntryPoint d \<Rightarrow>
               (let tsConfig = initializeTsConfig defaultTsConfig (d_entryPoint d) (d_outDir d) in
                Inr (g\<lparr>nodes :=
                        update_first isEntryPointInProgress (set_tsConfig tsConfig) (nodes g)\<rparr>))))"

section \<open>Downlevelling with the transform cache\<close>

record compiler_options =
  co_target :: string
  co_module :: string
  co_allowJs :: bool
  co_sourceMap :: bool
  co_importHelpers :: bool
  co_downlevelIteration :: bool
  co_moduleResolution :: string
  co_mapRoot :: "string option"

definition COMPILER_OPTIONS :: compiler_options where
  "COMPILER_OPTIONS =
     \<lparr>co_target = ''ES2015'', co_module = ''ESNext'', co_allowJs = True, co_sourceMap = True,
      co_importHelpers = True, co_downlevelIteration = True, co_moduleResolution = ''Classic'',
      co_mapRoot = None\<rparr>"

text \<open>The parameter \<open>cacheDirectory?: false | string\<close>.\<close>

datatype cache_directory = Absent | FalseValue | Directory string

definition enabled_directory :: "cache_directory \<Rightarrow> string option" where
  "enabled_directory cd =
     (case cd of Directory d \<Rightarrow> (if d = [] then None else Some d) | _ \<Rightarrow> None)"

record cache_payload =
  pl_code :: string
  pl_map :: "string option"

datatype cache_io =
    ReadEntry string string
  | SaveEntry string string
  | Transpile string compiler_options

record cache_world =
  disk :: "string \<times> string \<rightharpoonup> cache_payload"
  io :: "cache_io list"

text \<open>
  Modelled from the spec: \<open>generateKey\<close>, \<open>readCacheEntry\<close> and \<open>saveCacheEntry\<close>
  (the module \<open>utils/cache\<close>) are not among the sources. The key is a deterministic
  digest of the content; the digest is a parameter. The cache directory is a store of
  \<open>{code, map}\<close> pairs by key: a read returns the pair stored under the key, or
  nothing, and a save persists the pair under the key. Reads and saves are logged.
\<close>

definition generateKey :: "(string \<Rightarrow> string) \<Rightarrow> string \<Rightarrow> string" where
  "generateKey digest content = digest content"

definition readCacheEntry ::
  "string \<Rightarrow> string \<Rightarrow> cache_world \<Rightarrow> cache_payload option \<times> cache_world" where
  "readCacheEntry cacheDirectory key w =
     (disk w (cacheDirectory, key), w\<lparr>io := io w @ [ReadEntry cacheDirectory key]\<rparr>)"

definition saveCacheEntry :: "string \<Rightarrow> string \<Rightarrow> cache_payload \<Rightarrow> cache_world \<Rightarrow> cache_world" where
  "saveCacheEntry cacheDirectory key entry w =
     w\<lparr>disk := (disk w)((cacheDirectory, key) \<mapsto> entry),
       io := io w @ [SaveEntry cacheDirectory key]\<rparr>"

record 'j tsc_env =
  key_digest :: "string \<Rightarrow> string"
  transpileModule :: "string \<Rightarrow> compiler_options \<Rightarrow> string \<times> string option"
  JSON_parse :: "string \<Rightarrow> 'j option"
  dirname :: "string \<Rightarrow> string"

text \<open>
  A result read from the cache is returned as it was stored, its map still text; a
  fresh result carries the parsed map.
\<close>

datatype 'j transform_result = FromCache cache_payload | Fresh string 'j

definition downlevelCodeWithTsc ::
  "'j tsc_env \<Rightarrow> string \<Rightarrow> string \<Rightarrow> cache_directory \<Rightarrow> cache_world
     \<Rightarrow> (error + 'j transform_result) \<times> cache_world" where
  "downlevelCodeWithTsc e code filePath cacheDirectory w =
     (let key = generateKey (key_digest e) code in
      case (case enabled_directory cacheDirectory of
              Some d \<Rightarrow> readCacheEntry d key w
            | None \<Rightarrow> (None, w)) of
        (Some result, w1) \<Rightarrow> (Inr (FromCache result), w1)
      | (None, w1) \<Rightarrow>
          (let compilerOptions = COMPILER_OPTIONS\<lparr>co_mapRoot := Some (dirname e filePath)\<rparr> in
           case transpileModule e code compilerOptions of
             (outputText, sourceMapText) \<Rightarrow>
               (let w2 = w1\<lparr>io := io w1 @ [Transpile code compilerOptions]\<rparr>;
                    w3 = (case enabled_directory cacheDirectory of
                            Some d \<Rightarrow>
                              saveCacheEntry d key
                                \<lparr>pl_code = outputText, pl_map = sourceMapText\<rparr> w2
                          | None \<Rightarrow> w2) in
                case sourceMapText of
                  None \<Rightarrow> (Inl SyntaxError, w3)
                | Some m \<Rightarrow>
                    (case JSON_parse e m of
                       None \<Rightarrow> (Inl SyntaxError, w3)
                     | Some parsed \<Rightarrow> (Inr (Fresh outputText parsed), w3)))))"

section \<open>A concrete environment\<close>

text \<open>
  A small world to run the definitions in: POSIX paths that are already normalised
  (so \<open>ensureUnixPath\<close> has nothing to change and \<open>path.join\<close> puts one slash between
  its arguments), lower-case file names, two source files and one stylesheet on disk,
  digests that tag their input, and a stylesheet processor that returns the content
  it is given.
\<close>

definition last_segment :: "char \<Rightarrow> string \<Rightarrow> string" where
  "last_segment sep p = rev (takeWhile (\<lambda>c. c \<noteq> sep) (rev p))"

definition posix_dirname :: "string \<Rightarrow> string" where
  "posix_dirname p =
     (if CHR ''/'' \<notin> set p then ''.''
      else
        (let dir = rev (drop 1 (dropWhile (\<lambda>c. c \<noteq> CHR ''/'') (rev p))) in
         if dir = [] then ''/'' else dir))"

definition posix_extname :: "string \<Rightarrow> string" where
  "posix_extname p =
     (let base = last_segment (CHR ''/'') p in
      if CHR ''.'' \<in> set (drop 1 base) then CHR ''.'' # last_segment (CHR ''.'') base else [])"

definition files_on_disk :: "(string \<times> string) list" where
  "files_on_disk =
     [(''/src/public_api.ts'', ''export * from \"./a\";''),
      (''/src/a.ts'', ''export const a = 1;''),
      (''/src/a.css'', ''a { color: red }'')]"

definition posix_env :: env where
  "posix_env =
     \<lparr>ensureUnixPath = (\<lambda>p. p),
      fileUrl = (\<lambda>p. ''file://'' @ p),
      path_join = (\<lambda>a b. a @ ''/'' @ b),
      path_basename = last_segment (CHR ''/''),
      path_dirname = posix_dirname,
      path_resolve = (\<lambda>a b. a @ ''/'' @ b),
      path_extname = posix_extname,
      toLowerCase = (\<lambda>s. s),
      sha256_hex = (\<lambda>d. ''sha256:'' @ d),
      sha1_hex = (\<lambda>d. ''sha1:'' @ d),
      fromComment_toJSON = (\<lambda>d. Some (''map:'' @ d)),
      host_fileExists = (\<lambda>f. map_of files_on_disk f \<noteq> None),
      host_getSourceFile =
        (\<lambda>f v. case map_of files_on_disk f of
                 None \<Rightarrow> None
               | Some t \<Rightarrow> Some \<lparr>sf_fileName = f, sf_text = t, sf_version = None\<rparr>),
      host_readFile = map_of files_on_disk,
      ts_resolveModuleName = (\<lambda>m c. None),
      stylesheetProcessor =
        Some (\<lambda>f c. case c of None \<Rightarrow> Inl CollaboratorFailure | Some t \<Rightarrow> Inr t),
      inlineStyleLanguage = Some ''scss''\<rparr>"

definition sample_host :: host where
  "sample_host =
     cacheCompilerHost posix_env ''ng://sample''
       \<lparr>flatModuleFile = ''sample'', destinationPath = ''/dist'',
        entryFile = ''/src/public_api.ts''\<rparr>"

text \<open>
  A library \<open>lib\<close> whose destination directory is itself named \<open>lib.d.ts\<close>.
\<close>

definition dts_dir_host :: host where
  "dts_dir_host =
     cacheCompilerHost posix_env ''ng://lib''
       \<lparr>flatModuleFile = ''lib'', destinationPath = ''/out/lib.d.ts'',
        entryFile = ''/src/public_api.ts''\<rparr>"

definition a_ts :: source_file where
  "a_ts = \<lparr>sf_fileName = ''/src/a.ts'', sf_text = ''export const a = 1;'', sf_version = None\<rparr>"

definition public_api_ts :: source_file where
  "public_api_ts =
     \<lparr>sf_fileName = ''/src/public_api.ts'', sf_text = ''export * from \"./a\";'',
      sf_version = None\<rparr>"

text \<open>The state after an existence check, a parse and a read of \<open>/src/a.ts\<close>.\<close>

definition warm_state :: "unit host_state" where
  "warm_state =
     run_ops sample_host
       [FileExists ''/src/a.ts'', GetSourceFile ''/src/a.ts'' 99, ReadFile ''/src/a.ts'']
       initial_state"

definition later_ops :: "host_op list" where
  "later_ops =
     [ReadResource ''/src/a.css'',
      WriteFile ''/dist/esm/a.js'' ''export const a = 1;'' False (Some [a_ts]),
      WriteFile ''/dist/sample.d.ts'' ''export * from \"./a\";'' False (Some [public_api_ts, a_ts]),
      FileExists ''/src/a.ts'']"

text \<open>The state after the declaration of \<open>/src/a.ts\<close> was emitted.\<close>

definition declared_state :: "unit host_state" where
  "declared_state =
     snd (writeFile sample_host ''/dist/a.d.ts'' ''export declare const a = 1;'' False
            (Some [a_ts]) initial_state)"

text \<open>The state after \<open>/dist/esm/a.js\<close> was emitted once.\<close>

definition emitted_state :: "unit host_state" where
  "emitted_state =
     snd (writeFile sample_host ''/dist/esm/a.js'' ''export const a = 1;'' False
            (Some [a_ts]) initial_state)"

text \<open>
  An inline style of the component \<open>/src/a.ts\<close>, the synthetic path it is cached
  under, and the state after it was transformed.
\<close>

definition inline_context :: resource_context where
  "inline_context =
     \<lparr>ctx_resourceFile = None, ctx_type = ''style'', ctx_containingFile = ''/src/a.ts''\<rparr>"

definition inline_path :: string where
  "inline_path = ''/src/a.ts-sha1:a { color: red }.scss''"

definition styled_state :: "unit host_state" where
  "styled_state =
     snd (transformResource sample_host ''a { color: red }'' inline_context initial_state)"

definition sample_tsc_env :: "string tsc_env" where
  "sample_tsc_env =
     \<lparr>key_digest = (\<lambda>c. ''sha1:'' @ c),
      transpileModule = (\<lambda>code opts. (''/*es2015*/'' @ code, Some ''{\"version\":3}'')),
      JSON_parse = (\<lambda>t. if t = [] then None else Some t),
      dirname = posix_dirname\<rparr>"

definition sample_entry_point :: "string node" where
  "sample_entry_point =
     \<lparr>url = ''ng://sample'', state = Some InProgress,
      payload = EntryPoint
        \<lparr>d_entryPoint = \<lparr>flatModuleFile = ''sample'', destinationPath = ''/dist'',
                          entryFile = ''/src/public_api.ts''\<rparr>,
         d_outDir = ''/dist/out'', d_tsConfig = None\<rparr>\<rparr>"

definition sample_graph :: "string build_graph" where
  "sample_graph =
     \<lparr>nodes = [new_Node ''file:///src/a.ts'',
               sample_entry_point\<lparr>url := ''ng://sample/first'', state := Some Done\<rparr>,
               sample_entry_point,
               sample_entry_point\<lparr>url := ''ng://sample/third''\<rparr>],
      edges = {(''ng://sample'', ''file:///src/a.ts'')}\<rparr>"

section \<open>Helper lemmas\<close>

lemma list_ex_find_None: "find p xs = None \<Longrightarrow> \<not> list_ex p xs"
  by (simp add: find_None_iff list_ex_iff)

lemma find_Some_list_ex: "find p xs = Some x \<Longrightarrow> p x \<and> list_ex p xs"
  by (auto simp: find_Some_iff list_ex_iff)

lemma find_update_first:
  "find p xs = Some x \<Longrightarrow>
     \<exists>i<length xs. xs ! i = x \<and> p x \<and> (\<forall>j<i. \<not> p (xs ! j)) \<and> update_first p f xs = xs[i := f x]"
proof (induction xs)
  case Nil
  then show ?case by simp
next
  case (Cons y ys)
  show ?case
  proof (cases "p y")
    case True
    with Cons.prems have "y = x" by simp
    with True show ?thesis by (intro exI[of _ 0]) simp
  next
    case False
    with Cons.prems have "find p ys = Some x" by simp
    from Cons.IH[OF this] obtain i where i: "i < length ys" "ys ! i = x" "p x"
      "\<forall>j<i. \<not> p (ys ! j)" "update_first p f ys = ys[i := f x]" by blast
    have "\<forall>j<Suc i. \<not> p ((y # ys) ! j)"
      using False i(4) by (auto simp: less_Suc_eq_0_disj)
    with i False show ?thesis by (intro exI[of _ "Suc i"]) simp
  qed
qed

lemma stamp_version_version:
  "sf_version (stamp_version h f) = Some (case sf_version f of None \<Rightarrow> h (sf_text f) | Some v \<Rightarrow> v)"
  by (simp add: stamp_version_def split: option.split)

lemma stamp_version_idem: "stamp_version h (stamp_version h f) = stamp_version h f"
  by (simp add: stamp_version_def split: option.split)

lemma stamp_version_keeps:
  "sf_text (stamp_version h f) = sf_text f \<and> sf_fileName (stamp_version h f) = sf_fileName f"
  by (simp add: stamp_version_def split: option.split)

lemma registered_addDependee: "registered h f (addDependee h f g)"
proof (cases "graph_get g (fileUrl (h_env h) (ensureUnixPath (h_env h) f))")
  case None
  then show ?thesis
    by (simp add: registered_def addDependee_def getNode_def dependsOn_def graph_put_def
        new_Node_def graph_get_def list_ex_find_None)
next
  case (Some n)
  then show ?thesis
    by (auto simp: registered_def addDependee_def getNode_def dependsOn_def graph_get_def
        dest: find_Some_list_ex)
qed

lemma graph_getSourceFile: "graph (snd (getSourceFile h f v st)) = addDependee h f (graph st)"
  by (simp add: getSourceFile_def Let_def split: prod.split option.split)

lemma graph_readFile: "graph (snd (readFile h f st)) = addDependee h f (graph st)"
  by (simp add: readFile_def Let_def split: prod.split option.split)

lemma graph_readResource: "graph (snd (readResource h f st)) = addDependee h f (graph st)"
  by (simp add: readResource_def Let_def split: prod.split option.split sum.split)

lemma graph_fileExists: "graph (snd (fileExists h f st)) = graph st"
  by (simp add: fileExists_def Let_def split: prod.split option.split)

lemma graph_resolveModuleNames: "graph (snd (resolveModuleNames h ms f st)) = graph st"
  by (simp add: resolveModuleNames_def Let_def)

section \<open>Dependency discovery\<close>

text \<open>
  Claim C3, as the code has it. Parsing a source file, reading a file and reading a
  resource create or fetch the node of the touched path and add an edge from the
  owning entry point to it, in every state and whatever the operation returns. The
  existence check and the module-name resolution leave the graph as it is: they add
  no node and no edge.
\<close>

theorem touches_that_register:
  "registered h f (graph (snd (getSourceFile h f v st)))
   \<and> registered h f (graph (snd (readFile h f st)))
   \<and> registered h f (graph (snd (readResource h f st)))
   \<and> graph (snd (fileExists h f st)) = graph st
   \<and> graph (snd (resolveModuleNames h ms f st)) = graph st"
  by (simp add: graph_getSourceFile graph_readFile graph_readResource graph_fileExists
      graph_resolveModuleNames registered_addDependee)

text \<open>
  On a fresh host, an existence check of \<open>/src/a.ts\<close> and a resolution of a module
  name from \<open>/src/a.ts\<close> leave that file without a node and without an edge.
\<close>

theorem fileExists_registers_nothing:
  "\<not> registered sample_host ''/src/a.ts''
       (graph (snd (fileExists sample_host ''/src/a.ts'' (initial_state :: unit host_state))))
   \<and> \<not> registered sample_host ''/src/a.ts''
       (graph (snd (resolveModuleNames sample_host [''./a''] ''/src/a.ts''
          (initial_state :: unit host_state))))"
  by (simp add: graph_fileExists graph_resolveModuleNames registered_def initial_state_def)

section \<open>Version stamps\<close>

text \<open>
  Claim C4. The versioned \<open>getSourceFiles\<close> stamps each file of the program; a
  second call returns the very files of the first, so each file has the same version
  both times. A file that carries a version keeps it, a file without one gets the
  digest of its text, and neither its text nor its name changes.
\<close>

theorem versioning_idempotent:
  "fst (call_getSourceFiles (augmentProgramWithVersioning h (createProgram files)))
     = map (stamp_version h) files
   \<and> fst (call_getSourceFiles (snd (call_getSourceFiles
        (augmentProgramWithVersioning h (createProgram files)))))
     = fst (call_getSourceFiles (augmentProgramWithVersioning h (createProgram files)))
   \<and> sf_version (stamp_version h f)
     = Some (case sf_version f of None \<Rightarrow> h (sf_text f) | Some v \<Rightarrow> v)
   \<and> sf_text (stamp_version h f) = sf_text f
   \<and> sf_fileName (stamp_version h f) = sf_fileName f"
  by (simp add: call_getSourceFiles_def augmentProgramWithVersioning_def createProgram_def
      Let_def stamp_version_version stamp_version_idem stamp_version_keeps)

section \<open>The transform cache\<close>

text \<open>
  Claim C5, on the cache as the spec describes it. Two computations of the key of one
  content give one key, and an entry saved under the key of the first computation is
  what a read under the key of the second returns.
\<close>

theorem cache_roundtrip:
  assumes "k1 = generateKey digest c" and "k2 = generateKey digest c"
  shows "k1 = k2
    \<and> fst (readCacheEntry cacheDirectory k2 (saveCacheEntry cacheDirectory k1 entry w))
        = Some entry"
  using assms by (simp add: readCacheEntry_def saveCacheEntry_def)

theorem cache_roundtrip_witness:
  "fst (readCacheEntry ''/cache'' (generateKey (key_digest sample_tsc_env) ''let a = 1;'')
         (saveCacheEntry ''/cache'' (generateKey (key_digest sample_tsc_env) ''let a = 1;'')
            \<lparr>pl_code = ''var a = 1;'', pl_map = Some ''{}''\<rparr>
            \<lparr>disk = Map.empty, io = []\<rparr>))
     = Some \<lparr>pl_code = ''var a = 1;'', pl_map = Some ''{}''\<rparr>"
  using cache_roundtrip [where digest = "key_digest sample_tsc_env" and c = "''let a = 1;''",
      OF refl refl]
  by blast

text \<open>
  Claim C7. With a cache directory that is absent, \<open>false\<close> or the empty string, the
  only effect of \<open>downlevelCodeWithTsc\<close> is one transpilation: the cache is neither
  read nor written. When the transpiler returns a source map that parses, the result
  is the transpiled code with the parsed map.
\<close>

theorem downlevel_without_cache:
  assumes "cacheDirectory = Absent \<or> cacheDirectory = FalseValue \<or> cacheDirectory = Directory []"
  shows "snd (downlevelCodeWithTsc e code filePath cacheDirectory w)
           = w\<lparr>io := io w @ [Transpile code (COMPILER_OPTIONS\<lparr>co_mapRoot := Some (dirname e filePath)\<rparr>)]\<rparr>
         \<and> (transpileModule e code (COMPILER_OPTIONS\<lparr>co_mapRoot := Some (dirname e filePath)\<rparr>)
               = (outputText, Some sourceMapText)
             \<and> JSON_parse e sourceMapText = Some parsed
            \<longrightarrow> fst (downlevelCodeWithTsc e code filePath cacheDirectory w)
                  = Inr (Fresh outputText parsed))"
proof -
  from assms have off: "enabled_directory cacheDirectory = None"
    by (auto simp: enabled_directory_def)
  show ?thesis
    by (simp add: downlevelCodeWithTsc_def off Let_def split: prod.split option.split)
qed

theorem downlevel_without_cache_witness:
  "snd (downlevelCodeWithTsc sample_tsc_env ''let a = 1;'' ''/src/a.js'' FalseValue
          \<lparr>disk = Map.empty, io = []\<rparr>)
     = \<lparr>disk = Map.empty,
        io = [Transpile ''let a = 1;'' (COMPILER_OPTIONS\<lparr>co_mapRoot := Some ''/src''\<rparr>)]\<rparr>
   \<and> fst (downlevelCodeWithTsc sample_tsc_env ''let a = 1;'' ''/src/a.js'' FalseValue
          \<lparr>disk = Map.empty, io = []\<rparr>)
     = Inr (Fresh ''/*es2015*/let a = 1;'' ''{\"version\":3}'')"
proof -
  have p: "transpileModule sample_tsc_env ''let a = 1;''
             (COMPILER_OPTIONS\<lparr>co_mapRoot := Some (dirname sample_tsc_env ''/src/a.js'')\<rparr>)
           = (''/*es2015*/let a = 1;'', Some ''{\"version\":3}'')
         \<and> JSON_parse sample_tsc_env ''{\"version\":3}'' = Some ''{\"version\":3}''"
    by (simp add: sample_tsc_env_def)
  have d: "dirname sample_tsc_env ''/src/a.js'' = ''/src''"
    by (simp add: sample_tsc_env_def posix_dirname_def)
  from downlevel_without_cache [of FalseValue sample_tsc_env "''let a = 1;''" "''/src/a.js''"
      "\<lparr>disk = Map.empty, io = []\<rparr>" "''/*es2015*/let a = 1;''" "''{\"version\":3}''" "''{\"version\":3}''"]
    p d
  show ?thesis by simp
qed

section \<open>The tsconfig transform on the graph\<close>

text \<open>
  Claim C9. When \<open>find\<close> returns the node \<open>n\<close>, it is an entry point in progress at
  some position \<open>i\<close> with no entry point in progress before it, and the transform
  returns the graph with the node at \<open>i\<close> replaced by \<open>n\<close> with the new tsConfig in
  its data: every other node, the edges, and the URL, the state and the other data
  fields of \<open>n\<close> are as they were.
\<close>

theorem initTsConfig_frame:
  assumes "graph_find isEntryPointInProgress g = Some n"
  shows "\<exists>i d. i < length (nodes g) \<and> nodes g ! i = n \<and> payload n = EntryPoint d
           \<and> state n = Some InProgress
           \<and> (\<forall>j<i. \<not> isEntryPointInProgress (nodes g ! j))
           \<and> initTsConfigTransformFactory initializeTsConfig defaultTsConfig g
               = Inr (g\<lparr>nodes := (nodes g)[i :=
                   n\<lparr>payload := EntryPoint (d\<lparr>d_tsConfig :=
                       Some (initializeTsConfig defaultTsConfig (d_entryPoint d) (d_outDir d))\<rparr>)\<rparr>]\<rparr>)"
proof -
  from assms have f: "find isEntryPointInProgress (nodes g) = Some n"
    by (simp add: graph_find_def)
  from f have pn: "isEntryPointInProgress n" by (auto simp: find_Some_iff)
  then obtain d where d: "payload n = EntryPoint d" and s: "state n = Some InProgress"
    by (auto simp: isEntryPointInProgress_def split: payload.splits)
  let ?t = "initializeTsConfig defaultTsConfig (d_entryPoint d) (d_outDir d)"
  from find_update_first[OF f, of "set_tsConfig ?t"]
  obtain i where i: "i < length (nodes g)" "nodes g ! i = n"
    "\<forall>j<i. \<not> isEntryPointInProgress (nodes g ! j)"
    "update_first isEntryPointInProgress (set_tsConfig ?t) (nodes g) = (nodes g)[i := set_tsConfig ?t n]"
    by blast
  have "initTsConfigTransformFactory initializeTsConfig defaultTsConfig g
      = Inr (g\<lparr>nodes := (nodes g)[i := n\<lparr>payload := EntryPoint (d\<lparr>d_tsConfig := Some ?t\<rparr>)\<rparr>]\<rparr>)"
    using assms d i(4) by (simp add: initTsConfigTransformFactory_def set_tsConfig_def)
  with i d s show ?thesis by blast
qed

theorem initTsConfig_frame_witness:
  "graph_find isEntryPointInProgress sample_graph = Some sample_entry_point
   \<and> initTsConfigTransformFactory (\<lambda>dflt ep out. dflt @ out) ''base:'' sample_graph
     = Inr (sample_graph\<lparr>nodes := (nodes sample_graph)[2 :=
          sample_entry_point\<lparr>payload := EntryPoint
            \<lparr>d_entryPoint = \<lparr>flatModuleFile = ''sample'', destinationPath = ''/dist'',
                          entryFile = ''/src/public_api.ts''\<rparr>,
             d_outDir = ''/dist/out'', d_tsConfig = Some ''base:/dist/out''\<rparr>\<rparr>]\<rparr>)"
proof -
  have h: "graph_find isEntryPointInProgress sample_graph = Some sample_entry_point"
    by (simp add: graph_find_def sample_graph_def sample_entry_point_def
        isEntryPointInProgress_def new_Node_def)
  from initTsConfig_frame [OF h, of "\<lambda>dflt ep out. dflt @ out" "''base:''"]
  obtain i d where i: "i < length (nodes sample_graph)" "nodes sample_graph ! i = sample_entry_point"
    "payload sample_entry_point = EntryPoint d"
    "\<forall>j<i. \<not> isEntryPointInProgress (nodes sample_graph ! j)"
    "initTsConfigTransformFactory (\<lambda>dflt ep out. dflt @ out) ''base:'' sample_graph
       = Inr (sample_graph\<lparr>nodes := (nodes sample_graph)[i :=
            sample_entry_point\<lparr>payload := EntryPoint (d\<lparr>d_tsConfig := Some (''base:'' @ d_outDir d)\<rparr>)\<rparr>]\<rparr>)"
    by blast
  have "i = 2"
    using i(1,2) by (auto simp: sample_graph_def sample_entry_point_def new_Node_def
        less_Suc_eq numeral_3_eq_3 numeral_2_eq_2 nth_Cons')
  with i(3,5) h show ?thesis
    by (auto simp: sample_entry_point_def)
qed

section \<open>What the file cache keeps\<close>

lemma entry_kept_refl: "entry_kept a a"
  by (cases a) (simp_all add: entry_kept_def)

lemma entry_kept_None: "entry_kept None b"
  by (simp add: entry_kept_def)

lemma cache_kept_refl: "cache_kept fc fc"
  by (simp add: cache_kept_def entry_kept_refl)

lemma entry_kept_trans: "entry_kept a b \<Longrightarrow> entry_kept b c \<Longrightarrow> entry_kept a c"
proof (cases a)
  case None
  then show ?thesis by (simp add: entry_kept_def)
next
  case a: (Some x)
  assume ab: "entry_kept a b" and bc: "entry_kept b c"
  from ab a obtain y where b: "b = Some y" by (cases b) (simp_all add: entry_kept_def)
  from bc b obtain z where c: "c = Some z" by (cases c) (simp_all add: entry_kept_def)
  from ab have xy:
    "ce_exists x \<noteq> None \<longrightarrow> ce_exists y = ce_exists x \<or> ce_exists y = Some True"
    "ce_sourceFile x \<noteq> None \<longrightarrow> ce_sourceFile y = ce_sourceFile x"
    "ce_content x \<noteq> None \<longrightarrow> ce_content y = ce_content x"
    "truthy (ce_declarationFileName x) \<longrightarrow> ce_declarationFileName y = ce_declarationFileName x"
    unfolding a b entry_kept_def by simp_all
  from bc have yz:
    "ce_exists y \<noteq> None \<longrightarrow> ce_exists z = ce_exists y \<or> ce_exists z = Some True"
    "ce_sourceFile y \<noteq> None \<longrightarrow> ce_sourceFile z = ce_sourceFile y"
    "ce_content y \<noteq> None \<longrightarrow> ce_content z = ce_content y"
    "truthy (ce_declarationFileName y) \<longrightarrow> ce_declarationFileName z = ce_declarationFileName y"
    unfolding b c entry_kept_def by simp_all
  have 1: "ce_exists x \<noteq> None \<longrightarrow> ce_exists z = ce_exists x \<or> ce_exists z = Some True"
    using xy(1) yz(1) by auto
  have 2: "ce_sourceFile x \<noteq> None \<longrightarrow> ce_sourceFile z = ce_sourceFile x"
    using xy(2) yz(2) by auto
  have 3: "ce_content x \<noteq> None \<longrightarrow> ce_content z = ce_content x"
    using xy(3) yz(3) by auto
  have 4: "truthy (ce_declarationFileName x) \<longrightarrow> ce_declarationFileName z = ce_declarationFileName x"
    using xy(4) yz(4) by auto
  from 1 2 3 4 show ?thesis
    unfolding a c entry_kept_def by simp
qed

lemma cache_kept_trans: "cache_kept a b \<Longrightarrow> cache_kept b c \<Longrightarrow> cache_kept a c"
  unfolding cache_kept_def by (blast intro: entry_kept_trans)

lemma kept_getOrCreate: "getOrCreate f fc = (cache, fc') \<Longrightarrow> cache_kept fc fc'"
  by (cases "fc f") (auto simp: getOrCreate_def cache_kept_def entry_kept_refl entry_kept_None)

lemma kept_getOrCreate_upd:
  "getOrCreate f fc = (cache, fc') \<Longrightarrow> entry_kept (Some cache) (Some cache')
     \<Longrightarrow> cache_kept fc (fc'(f \<mapsto> cache'))"
  by (cases "fc f") (auto simp: getOrCreate_def cache_kept_def entry_kept_refl entry_kept_None)

lemma ek_exists: "ce_exists c = None \<Longrightarrow> entry_kept (Some c) (Some (c\<lparr>ce_exists := b\<rparr>))"
  by (simp add: entry_kept_def)

lemma ek_exists_true: "entry_kept (Some c) (Some (c\<lparr>ce_exists := Some True\<rparr>))"
  by (simp add: entry_kept_def)

lemma ek_sourceFile:
  "ce_sourceFile c = None \<Longrightarrow> entry_kept (Some c) (Some (c\<lparr>ce_sourceFile := r\<rparr>))"
  by (simp add: entry_kept_def)

lemma ek_content: "ce_content c = None \<Longrightarrow> entry_kept (Some c) (Some (c\<lparr>ce_content := r\<rparr>))"
  by (simp add: entry_kept_def)

lemma ek_content_exists:
  "ce_content c = None \<Longrightarrow>
     entry_kept (Some c) (Some (c\<lparr>ce_content := r, ce_exists := Some True\<rparr>))"
  by (simp add: entry_kept_def)

lemma ek_declaration:
  "\<not> truthy (ce_declarationFileName c) \<Longrightarrow>
     entry_kept (Some c) (Some (c\<lparr>ce_declarationFileName := Some p\<rparr>))"
  by (simp add: entry_kept_def)


lemma kept_fileExists: "cache_kept (sourcesFileCache st) (sourcesFileCache (snd (fileExists h f st)))"
proof (cases "getOrCreate f (sourcesFileCache st)")
  case (Pair cache fc')
  show ?thesis
  proof (cases "ce_exists cache")
    case None
    with Pair kept_getOrCreate_upd [OF Pair ek_exists [OF None]] show ?thesis
      by (simp add: fileExists_def Let_def)
  next
    case (Some b)
    with Pair kept_getOrCreate [OF Pair] show ?thesis
      by (simp add: fileExists_def)
  qed
qed

lemma kept_getSourceFile:
  "cache_kept (sourcesFileCache st) (sourcesFileCache (snd (getSourceFile h f v st)))"
proof (cases "getOrCreate f (sourcesFileCache st)")
  case (Pair cache fc')
  show ?thesis
  proof (cases "ce_sourceFile cache")
    case None
    with Pair kept_getOrCreate_upd [OF Pair ek_sourceFile [OF None]] show ?thesis
      by (simp add: getSourceFile_def Let_def)
  next
    case (Some b)
    with Pair kept_getOrCreate [OF Pair] show ?thesis
      by (simp add: getSourceFile_def Let_def)
  qed
qed

lemma kept_readFile: "cache_kept (sourcesFileCache st) (sourcesFileCache (snd (readFile h f st)))"
proof (cases "getOrCreate f (sourcesFileCache st)")
  case (Pair cache fc')
  show ?thesis
  proof (cases "ce_content cache")
    case None
    with Pair kept_getOrCreate_upd [OF Pair ek_content [OF None]] show ?thesis
      by (simp add: readFile_def Let_def)
  next
    case (Some b)
    with Pair kept_getOrCreate [OF Pair] show ?thesis
      by (simp add: readFile_def Let_def)
  qed
qed

lemma kept_resolveModuleNames:
  "cache_kept (sourcesFileCache st) (sourcesFileCache (snd (resolveModuleNames h ms f st)))"
  by (simp add: resolveModuleNames_def Let_def cache_kept_refl)

lemma kept_resourceNameToFileName:
  "cache_kept (sourcesFileCache st) (sourcesFileCache (snd (resourceNameToFileName h r f st)))"
  by (simp add: resourceNameToFileName_def Let_def cache_kept_refl split: prod.split)

lemma kept_readResource:
  "cache_kept (sourcesFileCache st) (sourcesFileCache (snd (readResource h f st)))"
proof (cases "getOrCreate f (sourcesFileCache st)")
  case (Pair cache fc')
  note k = kept_getOrCreate [OF Pair]
  show ?thesis
  proof (cases "ce_content cache")
    case (Some c)
    with Pair k show ?thesis by (simp add: readResource_def Let_def)
  next
    case None
    have u: "cache_kept (sourcesFileCache st)
        (fc'(f \<mapsto> cache\<lparr>ce_content := r, ce_exists := Some True\<rparr>))" for r
      by (rule kept_getOrCreate_upd [OF Pair ek_content_exists [OF None]])
    show ?thesis
    proof (cases "stylesheetProcessor (h_env h)")
      case no: None
      with Pair None k u show ?thesis by (simp add: readResource_def Let_def)
    next
      case (Some process)
      show ?thesis
      proof (cases "process f (host_readFile (h_env h) f)")
        case (Inl err)
        with Pair None Some k u show ?thesis by (simp add: readResource_def Let_def)
      next
        case (Inr css)
        with Pair None Some k u show ?thesis by (simp add: readResource_def Let_def)
      qed
    qed
  qed
qed

lemma kept_inline_style:
  "cache_kept (sourcesFileCache st) (sourcesFileCache (snd (inline_style h d cf l st)))"
proof -
  let ?f = "cf @ ''-'' @ sha1_hex (h_env h) d @ ''.'' @ l"
  obtain cache fc' where g: "getOrCreate ?f (sourcesFileCache st) = (cache, fc')"
    by (cases "getOrCreate ?f (sourcesFileCache st)")
  note k = kept_getOrCreate [OF g]
  show ?thesis
  proof (cases "ce_content cache")
    case (Some c)
    with g kept_getOrCreate_upd [OF g ek_exists_true] show ?thesis
      by (simp add: inline_style_def Let_def)
  next
    case None
    have u: "cache_kept (sourcesFileCache st)
        (fc'(?f \<mapsto> cache\<lparr>ce_content := r, ce_exists := Some True\<rparr>))" for r
      by (rule kept_getOrCreate_upd [OF g ek_content_exists [OF None]])
    show ?thesis
    proof (cases "stylesheetProcessor (h_env h)")
      case no: None
      with g None k show ?thesis by (simp add: inline_style_def Let_def)
    next
      case (Some process)
      show ?thesis
      proof (cases "process ?f (Some d)")
        case (Inl err)
        with g None Some k show ?thesis by (simp add: inline_style_def Let_def)
      next
        case (Inr css)
        with g None Some u [of "Some css"] show ?thesis
          by (simp add: inline_style_def Let_def split: prod.split)
      qed
    qed
  qed
qed

lemma kept_transformResource:
  "cache_kept (sourcesFileCache st) (sourcesFileCache (snd (transformResource h d c st)))"
  by (simp add: transformResource_def cache_kept_refl kept_inline_style split: option.split)

lemma kept_record_declaration: "cache_kept fc (record_declaration p fc s)"
proof (cases "getOrCreate (sf_fileName s) fc")
  case (Pair cache fc')
  show ?thesis
  proof (cases "truthy (ce_declarationFileName cache)")
    case True
    with Pair kept_getOrCreate [OF Pair] show ?thesis
      by (simp add: record_declaration_def)
  next
    case False
    with Pair kept_getOrCreate_upd [OF Pair ek_declaration [OF False]] show ?thesis
      by (simp add: record_declaration_def)
  qed
qed

lemma kept_foldl_record_declaration: "cache_kept fc (foldl (record_declaration p) fc ss)"
proof (induction ss arbitrary: fc)
  case Nil
  show ?case by (simp add: cache_kept_refl)
next
  case (Cons s ss)
  show ?case
    using cache_kept_trans [OF kept_record_declaration Cons.IH] by simp
qed

lemma kept_writeFile:
  "cache_kept (sourcesFileCache st) (sourcesFileCache (snd (writeFile h f d b srcs st)))"
proof (cases "suffix ''.d.ts'' f")
  case True
  then show ?thesis
    by (simp add: writeFile_def Let_def cache_kept_refl kept_foldl_record_declaration
        split: option.split)
next
  case False
  then show ?thesis
    by (simp add: writeFile_def Let_def cache_kept_refl split: prod.split sum.split)
qed

lemma kept_run_op: "cache_kept (sourcesFileCache st) (sourcesFileCache (run_op h st op))"
  by (cases op) (simp_all add: kept_fileExists kept_getSourceFile kept_writeFile kept_readFile
      kept_resolveModuleNames kept_resourceNameToFileName kept_readResource kept_transformResource)

lemma kept_run_ops: "cache_kept (sourcesFileCache st) (sourcesFileCache (run_ops h ops st))"
proof (induction ops arbitrary: st)
  case Nil
  show ?case by (simp add: run_ops_def cache_kept_refl)
next
  case (Cons op ops)
  have "cache_kept (sourcesFileCache (run_op h st op))
          (sourcesFileCache (run_ops h ops (run_op h st op)))"
    by (rule Cons.IH)
  with kept_run_op [of st h op] show ?case
    by (simp add: run_ops_def cache_kept_trans)
qed

lemma kept_exists:
  "cache_kept fc fc' \<Longrightarrow> cached_exists fc f = Some b \<Longrightarrow>
     cached_exists fc' f = Some b \<or> cached_exists fc' f = Some True"
  unfolding cache_kept_def cached_exists_def
  by (erule allE [of _ f]) (auto simp: entry_kept_def split: option.splits)

lemma kept_sourceFile:
  "cache_kept fc fc' \<Longrightarrow> cached_sourceFile fc f = Some x \<Longrightarrow> cached_sourceFile fc' f = Some x"
  unfolding cache_kept_def cached_sourceFile_def
  by (erule allE [of _ f]) (auto simp: entry_kept_def split: option.splits)

lemma kept_content:
  "cache_kept fc fc' \<Longrightarrow> cached_content fc f = Some x \<Longrightarrow> cached_content fc' f = Some x"
  unfolding cache_kept_def cached_content_def
  by (erule allE [of _ f]) (auto simp: entry_kept_def split: option.splits)

lemma kept_declaration:
  "cache_kept fc fc' \<Longrightarrow> truthy (cached_declarationFileName fc f) \<Longrightarrow>
     cached_declarationFileName fc' f = cached_declarationFileName fc f"
  unfolding cache_kept_def cached_declarationFileName_def
  by (erule allE [of _ f]) (auto simp: entry_kept_def truthy_def split: option.splits)

lemma fileExists_hit: "cached_exists (sourcesFileCache st) f = Some b \<Longrightarrow> fileExists h f st = (b, st)"
  by (auto simp: cached_exists_def fileExists_def getOrCreate_def split: option.splits)

lemma getSourceFile_hit:
  "cached_sourceFile (sourcesFileCache st) f = Some sf \<Longrightarrow>
     getSourceFile h f v st = (Some sf, st\<lparr>graph := addDependee h f (graph st)\<rparr>)"
  by (auto simp: cached_sourceFile_def getSourceFile_def getOrCreate_def split: option.splits)

lemma readFile_hit:
  "cached_content (sourcesFileCache st) f = Some c \<Longrightarrow>
     readFile h f st = (Some c, st\<lparr>graph := addDependee h f (graph st)\<rparr>)"
  by (auto simp: cached_content_def readFile_def getOrCreate_def split: option.splits)

lemma fileExists_populates:
  "cached_exists (sourcesFileCache (snd (fileExists h f st))) f = Some (fst (fileExists h f st))"
  by (simp add: cached_exists_def fileExists_def getOrCreate_def empty_entry_def Let_def
      split: option.split)

lemma getSourceFile_populates:
  "fst (getSourceFile h f v st) = Some sf \<Longrightarrow>
     cached_sourceFile (sourcesFileCache (snd (getSourceFile h f v st))) f = Some sf"
  by (auto simp: cached_sourceFile_def getSourceFile_def getOrCreate_def empty_entry_def Let_def
      split: option.splits)

lemma readFile_populates:
  "fst (readFile h f st) = Some c \<Longrightarrow>
     cached_content (sourcesFileCache (snd (readFile h f st))) f = Some c"
  by (auto simp: cached_content_def readFile_def getOrCreate_def empty_entry_def Let_def
      split: option.splits)

section \<open>What the existence flag keeps\<close>

lemma exists_getOrCreate:
  "getOrCreate g fc = (cache, fc') \<Longrightarrow> cached_exists fc' f = cached_exists fc f"
  by (cases "fc g") (auto simp: getOrCreate_def cached_exists_def empty_entry_def)

lemma exists_getOrCreate_other:
  "getOrCreate g fc = (cache, fc') \<Longrightarrow> g \<noteq> f \<Longrightarrow>
     cached_exists (fc'(g \<mapsto> c)) f = cached_exists fc f"
  by (cases "fc g") (auto simp: getOrCreate_def cached_exists_def)

lemma exists_getOrCreate_same:
  "getOrCreate g fc = (cache, fc') \<Longrightarrow> ce_exists c = ce_exists cache \<Longrightarrow>
     cached_exists (fc'(g \<mapsto> c)) f = cached_exists fc f"
  by (cases "fc g") (auto simp: getOrCreate_def cached_exists_def empty_entry_def)

lemma exists_fileExists:
  assumes "cached_exists (sourcesFileCache st) f = Some b"
  shows "cached_exists (sourcesFileCache (snd (fileExists h g st))) f = Some b"
proof (cases "g = f")
  case True
  with assms show ?thesis by (simp add: fileExists_hit)
next
  case False
  obtain cache fc' where p: "getOrCreate g (sourcesFileCache st) = (cache, fc')"
    by (cases "getOrCreate g (sourcesFileCache st)")
  from assms exists_getOrCreate [OF p] exists_getOrCreate_other [OF p False] show ?thesis
    by (simp add: fileExists_def p Let_def split: option.split)
qed

lemma exists_getSourceFile:
  assumes "cached_exists (sourcesFileCache st) f = Some b"
  shows "cached_exists (sourcesFileCache (snd (getSourceFile h g v st))) f = Some b"
proof -
  obtain cache fc' where p: "getOrCreate g (sourcesFileCache st) = (cache, fc')"
    by (cases "getOrCreate g (sourcesFileCache st)")
  have "cached_exists (fc'(g \<mapsto> cache\<lparr>ce_sourceFile := r\<rparr>)) f
          = cached_exists (sourcesFileCache st) f" for r
    by (rule exists_getOrCreate_same [OF p]) simp
  with assms exists_getOrCreate [OF p] show ?thesis
    by (simp add: getSourceFile_def p Let_def split: option.split)
qed

lemma exists_readFile:
  assumes "cached_exists (sourcesFileCache st) f = Some b"
  shows "cached_exists (sourcesFileCache (snd (readFile h g st))) f = Some b"
proof -
  obtain cache fc' where p: "getOrCreate g (sourcesFileCache st) = (cache, fc')"
    by (cases "getOrCreate g (sourcesFileCache st)")
  have "cached_exists (fc'(g \<mapsto> cache\<lparr>ce_content := r\<rparr>)) f
          = cached_exists (sourcesFileCache st) f" for r
    by (rule exists_getOrCreate_same [OF p]) simp
  with assms exists_getOrCreate [OF p] show ?thesis
    by (simp add: readFile_def p Let_def split: option.split)
qed

lemma exists_record_declaration:
  "cached_exists (record_declaration dp fc s) f = cached_exists fc f"
proof -
  obtain cache fc' where p: "getOrCreate (sf_fileName s) fc = (cache, fc')"
    by (cases "getOrCreate (sf_fileName s) fc")
  have "cached_exists (fc'(sf_fileName s \<mapsto> cache\<lparr>ce_declarationFileName := Some dp\<rparr>)) f
          = cached_exists fc f"
    by (rule exists_getOrCreate_same [OF p]) simp
  with exists_getOrCreate [OF p] show ?thesis
    by (simp add: record_declaration_def p)
qed

lemma exists_foldl_record_declaration:
  "cached_exists (foldl (record_declaration dp) fc ss) f = cached_exists fc f"
  by (induction ss arbitrary: fc) (simp_all add: exists_record_declaration)

lemma exists_writeFile:
  "cached_exists (sourcesFileCache (snd (writeFile h g d w srcs st))) f
     = cached_exists (sourcesFileCache st) f"
proof (cases "suffix ''.d.ts'' g")
  case True
  then show ?thesis
    by (simp add: writeFile_def Let_def exists_foldl_record_declaration split: option.split)
next
  case False
  then show ?thesis
    by (simp add: writeFile_def Let_def split: prod.split sum.split)
qed

lemma exists_readResource:
  assumes "g \<noteq> f"
  shows "cached_exists (sourcesFileCache (snd (readResource h g st))) f
     = cached_exists (sourcesFileCache st) f"
proof -
  obtain cache fc' where p: "getOrCreate g (sourcesFileCache st) = (cache, fc')"
    by (cases "getOrCreate g (sourcesFileCache st)")
  note a = exists_getOrCreate [OF p, of f]
  note b = exists_getOrCreate_other [OF p assms]
  show ?thesis
  proof (cases "ce_content cache")
    case (Some c)
    with a show ?thesis by (simp add: readResource_def p Let_def)
  next
    case None
    show ?thesis
    proof (cases "stylesheetProcessor (h_env h)")
      case no: None
      with None a b show ?thesis by (simp add: readResource_def p Let_def)
    next
      case (Some process)
      show ?thesis
      proof (cases "process g (host_readFile (h_env h) g)")
        case (Inl err)
        with None Some a b show ?thesis by (simp add: readResource_def p Let_def)
      next
        case (Inr css)
        with None Some a b show ?thesis by (simp add: readResource_def p Let_def)
      qed
    qed
  qed
qed

lemma exists_inline_style:
  assumes "cf @ ''-'' @ sha1_hex (h_env h) d @ ''.'' @ l \<noteq> f"
  shows "cached_exists (sourcesFileCache (snd (inline_style h d cf l st))) f
     = cached_exists (sourcesFileCache st) f"
proof -
  let ?g = "cf @ ''-'' @ sha1_hex (h_env h) d @ ''.'' @ l"
  obtain cache fc' where p: "getOrCreate ?g (sourcesFileCache st) = (cache, fc')"
    by (cases "getOrCreate ?g (sourcesFileCache st)")
  note a = exists_getOrCreate [OF p, of f]
  note b = exists_getOrCreate_other [OF p assms]
  show ?thesis
  proof (cases "ce_content cache")
    case (Some c)
    with b p show ?thesis by (simp add: inline_style_def Let_def)
  next
    case None
    show ?thesis
    proof (cases "stylesheetProcessor (h_env h)")
      case no: None
      with None a p show ?thesis by (simp add: inline_style_def Let_def)
    next
      case (Some process)
      show ?thesis
      proof (cases "process ?g (Some d)")
        case (Inl err)
        with None Some a p show ?thesis by (simp add: inline_style_def Let_def)
      next
        case (Inr css)
        with None Some b p show ?thesis
          by (simp add: inline_style_def Let_def split: prod.split)
      qed
    qed
  qed
qed

lemma exists_transformResource:
  assumes "\<not> overwrites_exists h f (TransformResource d c)"
  shows "cached_exists (sourcesFileCache (snd (transformResource h d c st))) f
     = cached_exists (sourcesFileCache st) f"
  using assms
  by (auto simp: transformResource_def overwrites_exists_def exists_inline_style
      split: option.split)

lemma exists_run_op:
  assumes "cached_exists (sourcesFileCache st) f = Some b" and "\<not> overwrites_exists h f op"
  shows "cached_exists (sourcesFileCache (run_op h st op)) f = Some b"
proof (cases op)
  case (FileExists g)
  with assms show ?thesis by (simp add: exists_fileExists)
next
  case (GetSourceFile g v)
  with assms show ?thesis by (simp add: exists_getSourceFile)
next
  case (WriteFile g d w srcs)
  with assms show ?thesis by (simp add: exists_writeFile)
next
  case (ReadFile g)
  with assms show ?thesis by (simp add: exists_readFile)
next
  case (ResolveModuleNames ms g)
  with assms show ?thesis by (simp add: resolveModuleNames_def Let_def)
next
  case (ResourceNameToFileName r g)
  with assms show ?thesis
    by (simp add: resourceNameToFileName_def Let_def split: prod.split)
next
  case (ReadResource g)
  with assms(2) have "g \<noteq> f" by (simp add: overwrites_exists_def)
  with assms(1) ReadResource show ?thesis by (simp add: exists_readResource)
next
  case (TransformResource d c)
  with assms show ?thesis by (simp add: exists_transformResource)
qed

lemma exists_run_ops:
  "cached_exists (sourcesFileCache st) f = Some b \<Longrightarrow>
   list_all (\<lambda>op. \<not> overwrites_exists h f op) ops \<Longrightarrow>
   cached_exists (sourcesFileCache (run_ops h ops st)) f = Some b"
proof (induction ops arbitrary: st)
  case Nil
  then show ?case by (simp add: run_ops_def)
next
  case (Cons op ops)
  from Cons.prems have 1: "cached_exists (sourcesFileCache (run_op h st op)) f = Some b"
    by (simp add: exists_run_op)
  from Cons.prems have 2: "list_all (\<lambda>op. \<not> overwrites_exists h f op) ops" by simp
  from Cons.IH [OF 1 2] show ?case by (simp add: run_ops_def)
qed

section \<open>Memoised host operations\<close>

text \<open>
  Claim C6, as the code has it. Once the existence flag, the parsed source file or
  the content of a path is in the cache, then after any further operations of the
  host the matching operation answers from the cache and changes neither the log of
  host calls nor the caches: the underlying host is not asked again. The parsed
  source file and the content returned are the ones first cached. The existence flag
  returned is the one first cached as long as no operation in between is a resource
  read of the path or the transformation of an inline style cached under the path;
  after such an operation it is the flag first cached or \<open>true\<close>. The last three
  conjuncts say that the operations populate these fields: \<open>fileExists\<close> always,
  \<open>getSourceFile\<close> and \<open>readFile\<close> when they return a value.
\<close>

theorem populated_fields_served_from_cache:
  "(cached_exists (sourcesFileCache st) f = Some b
      \<and> list_all (\<lambda>op. \<not> overwrites_exists h f op) ops \<longrightarrow>
      fileExists h f (run_ops h ops st) = (b, run_ops h ops st))
   \<and> (cached_exists (sourcesFileCache st) f = Some b \<longrightarrow>
      (\<exists>b'. (b' = b \<or> b' = True)
         \<and> fileExists h f (run_ops h ops' st) = (b', run_ops h ops' st)))
   \<and> (cached_sourceFile (sourcesFileCache st) f = Some sf \<longrightarrow>
        getSourceFile h f v (run_ops h ops' st)
          = (Some sf, (run_ops h ops' st)\<lparr>graph := addDependee h f (graph (run_ops h ops' st))\<rparr>))
   \<and> (cached_content (sourcesFileCache st) f = Some c \<longrightarrow>
        readFile h f (run_ops h ops' st)
          = (Some c, (run_ops h ops' st)\<lparr>graph := addDependee h f (graph (run_ops h ops' st))\<rparr>))
   \<and> cached_exists (sourcesFileCache (snd (fileExists h f st))) f = Some (fst (fileExists h f st))
   \<and> (fst (getSourceFile h f v st) = Some sf \<longrightarrow>
        cached_sourceFile (sourcesFileCache (snd (getSourceFile h f v st))) f = Some sf)
   \<and> (fst (readFile h f st) = Some c \<longrightarrow>
        cached_content (sourcesFileCache (snd (readFile h f st))) f = Some c)"
proof -
  note k = kept_run_ops [of st h ops']
  have 0: "cached_exists (sourcesFileCache st) f = Some b
      \<and> list_all (\<lambda>op. \<not> overwrites_exists h f op) ops \<longrightarrow>
      fileExists h f (run_ops h ops st) = (b, run_ops h ops st)"
    using exists_run_ops fileExists_hit by blast
  have 1: "cached_exists (sourcesFileCache st) f = Some b \<longrightarrow>
      (\<exists>b'. (b' = b \<or> b' = True)
         \<and> fileExists h f (run_ops h ops' st) = (b', run_ops h ops' st))"
  proof
    assume "cached_exists (sourcesFileCache st) f = Some b"
    from kept_exists [OF k this]
    show "\<exists>b'. (b' = b \<or> b' = True) \<and> fileExists h f (run_ops h ops' st) = (b', run_ops h ops' st)"
      by (auto dest: fileExists_hit)
  qed
  have 2: "cached_sourceFile (sourcesFileCache st) f = Some sf \<longrightarrow>
        getSourceFile h f v (run_ops h ops' st)
          = (Some sf, (run_ops h ops' st)\<lparr>graph := addDependee h f (graph (run_ops h ops' st))\<rparr>)"
    using kept_sourceFile [OF k] getSourceFile_hit by blast
  have 3: "cached_content (sourcesFileCache st) f = Some c \<longrightarrow>
        readFile h f (run_ops h ops' st)
          = (Some c, (run_ops h ops' st)\<lparr>graph := addDependee h f (graph (run_ops h ops' st))\<rparr>)"
    using kept_content [OF k] readFile_hit by blast
  from 0 1 2 3 fileExists_populates getSourceFile_populates readFile_populates
  show ?thesis by blast
qed

section \<open>Declaration paths\<close>

lemma truthy_simps: "truthy None = False" "truthy (Some s) = (s \<noteq> [])"
  by (simp_all add: truthy_def)

lemma record_declaration_at:
  "cached_declarationFileName (record_declaration dp fc s) p
     = (if p = sf_fileName s \<and> \<not> truthy (cached_declarationFileName fc p) then Some dp
        else cached_declarationFileName fc p)"
  by (cases "fc (sf_fileName s)")
     (auto simp: record_declaration_def getOrCreate_def cached_declarationFileName_def
        empty_entry_def truthy_simps)

lemma foldl_record_declaration_at:
  "cached_declarationFileName (foldl (record_declaration dp) fc ss) p
     = (if p \<in> sf_fileName ` set ss \<and> \<not> truthy (cached_declarationFileName fc p) then Some dp
        else cached_declarationFileName fc p)"
proof (induction ss arbitrary: fc)
  case Nil
  show ?case by simp
next
  case (Cons s ss)
  show ?case
    by (auto simp: Cons.IH record_declaration_at)
qed

text \<open>
  Claim C10. A declaration emission that covers a source file records the emitted
  path for it exactly when no (non-empty) path is recorded yet, and a recorded path
  is what it was after any further operations of the host.
\<close>

theorem declaration_path_recorded_once:
  assumes "suffix ''.d.ts'' fileName"
    and "\<not> (fileName = flatModuleFileDtsPath h \<and> hasIndexEntryFile h)"
    and "source \<in> set sources"
  shows "cached_declarationFileName
           (sourcesFileCache (snd (writeFile h fileName data bom (Some sources) st)))
           (sf_fileName source)
         = (if truthy (cached_declarationFileName (sourcesFileCache st) (sf_fileName source))
            then cached_declarationFileName (sourcesFileCache st) (sf_fileName source)
            else Some (ensureUnixPath (h_env h) (renamed_declaration h fileName)))
       \<and> (truthy (cached_declarationFileName (sourcesFileCache st) p) \<longrightarrow>
            cached_declarationFileName (sourcesFileCache (run_ops h ops st)) p
              = cached_declarationFileName (sourcesFileCache st) p)"
proof -
  from assms(3) have "sf_fileName source \<in> sf_fileName ` set sources" by (rule imageI)
  with assms(1,2) have 1: "cached_declarationFileName
           (sourcesFileCache (snd (writeFile h fileName data bom (Some sources) st)))
           (sf_fileName source)
         = (if truthy (cached_declarationFileName (sourcesFileCache st) (sf_fileName source))
            then cached_declarationFileName (sourcesFileCache st) (sf_fileName source)
            else Some (ensureUnixPath (h_env h) (renamed_declaration h fileName)))"
    by (auto simp: writeFile_def Let_def foldl_record_declaration_at)
  have 2: "truthy (cached_declarationFileName (sourcesFileCache st) p) \<longrightarrow>
            cached_declarationFileName (sourcesFileCache (run_ops h ops st)) p
              = cached_declarationFileName (sourcesFileCache st) p"
    using kept_declaration [OF kept_run_ops] by blast
  from 1 2 show ?thesis by (rule conjI)
qed

section \<open>Reading a missing resource\<close>

text \<open>
  Claim C8, as the code has it. For a resource whose file does not exist:
  when its content is not cached, \<open>readResource\<close> throws the error that names the
  path and leaves the content uncached; when its content is cached, \<open>readResource\<close>
  returns the cached content and asks the underlying host nothing.
\<close>

theorem readResource_missing_file:
  assumes "\<not> host_fileExists (h_env h) fileName"
  shows "(cached_content (sourcesFileCache st) fileName = None \<longrightarrow>
            fst (readResource h fileName st) = Inl (Error (''Cannot read file '' @ fileName @ ''.''))
          \<and> cached_content (sourcesFileCache (snd (readResource h fileName st))) fileName = None)
       \<and> (cached_content (sourcesFileCache st') fileName = Some c \<longrightarrow>
            readResource h fileName st'
              = (Inr (Some c), st'\<lparr>graph := addDependee h fileName (graph st')\<rparr>))"
proof -
  have 1: "cached_content (sourcesFileCache st) fileName = None \<longrightarrow>
            fst (readResource h fileName st) = Inl (Error (''Cannot read file '' @ fileName @ ''.''))
          \<and> cached_content (sourcesFileCache (snd (readResource h fileName st))) fileName = None"
    using assms
    by (cases "sourcesFileCache st fileName")
       (auto simp: readResource_def getOrCreate_def cached_content_def empty_entry_def Let_def)
  have 2: "cached_content (sourcesFileCache st') fileName = Some c \<longrightarrow>
            readResource h fileName st'
              = (Inr (Some c), st'\<lparr>graph := addDependee h fileName (graph st')\<rparr>)"
    by (cases "sourcesFileCache st' fileName")
       (auto simp: readResource_def getOrCreate_def cached_content_def Let_def)
  from 1 2 show ?thesis by (rule conjI)
qed

section \<open>Hash gating of the source map\<close>

lemma output_map_count:
  "length (filter is_extraction (snd (output_map h out v d oc)))
     = (if suffix ''.mjs'' out \<and> (case oc out of None \<Rightarrow> True | Some c \<Rightarrow> oe_version c \<noteq> v)
        then 1 else 0)"
  by (simp add: output_map_def is_extraction_def split: option.split)

lemma output_map_hit:
  "oc out = Some c \<Longrightarrow> oe_version c = v \<Longrightarrow>
     output_map h out v d oc = (Inr (if suffix ''.mjs'' out then oe_map c else None), [])"
  by (simp add: output_map_def)

lemma map_extractions_writeFile:
  "\<not> suffix ''.d.ts'' fileName \<Longrightarrow>
   map_extractions (snd (writeFile h fileName data bom srcs st))
     = map_extractions st +
       (if suffix ''.mjs'' (mjs_rename fileName)
           \<and> (case outputCache st (mjs_rename fileName) of
                 None \<Rightarrow> True
               | Some c \<Rightarrow> oe_version c \<noteq> sha256_hex (h_env h) data)
        then 1 else 0)"
  using output_map_count [of h "mjs_rename fileName" "sha256_hex (h_env h) data" data "outputCache st"]
  by (cases "output_map h (mjs_rename fileName) (sha256_hex (h_env h) data) data (outputCache st)")
     (auto simp: writeFile_def Let_def map_extractions_def is_extraction_def split: sum.splits)

lemma writeFile_hit:
  assumes "\<not> suffix ''.d.ts'' fileName"
    and "outputCache st (mjs_rename fileName) = Some c"
    and "oe_version c = sha256_hex (h_env h) data"
  shows "writeFile h fileName data bom srcs st
       = (Inr (),
          st\<lparr>outputCache := (outputCache st)(mjs_rename fileName \<mapsto>
               \<lparr>oe_content = data, oe_version = sha256_hex (h_env h) data,
                oe_map = (if suffix ''.mjs'' (mjs_rename fileName) then oe_map c else None)\<rparr>),
             calls := calls st @ [HostWriteFile (mjs_rename fileName) data bom]\<rparr>)"
  using assms by (simp add: writeFile_def Let_def output_map_hit)

lemma writeFile_stored:
  assumes "\<not> suffix ''.d.ts'' fileName"
    and "writeFile h fileName data bom srcs st = (Inr (), st1)"
  shows "\<exists>m. outputCache st1 (mjs_rename fileName)
            = Some \<lparr>oe_content = data, oe_version = sha256_hex (h_env h) data, oe_map = m\<rparr>
          \<and> (\<not> suffix ''.mjs'' (mjs_rename fileName) \<longrightarrow> m = None)"
  using assms
  by (cases "output_map h (mjs_rename fileName) (sha256_hex (h_env h) data) data (outputCache st)")
     (auto simp: writeFile_def Let_def output_map_def split: sum.splits if_splits option.splits)

text \<open>
  Claim C2. For a name that is no declaration file: when the output cache holds the
  output name with the version of the data, nothing is extracted and, for a \<open>.mjs\<close>
  output, the cached map is stored again; the number of extractions grows by one
  exactly when the output is a \<open>.mjs\<close> file whose cache entry is missing or has
  another version; and a second emission of the same data under the same name, right
  after a first that succeeded, only writes the file: no extraction, the output cache
  as it was.
\<close>

theorem writeFile_map_hash_gated:
  assumes "\<not> suffix ''.d.ts'' fileName"
  shows "(outputCache st (mjs_rename fileName) = Some c
            \<and> oe_version c = sha256_hex (h_env h) data \<longrightarrow>
          writeFile h fileName data bom srcs st
            = (Inr (),
               st\<lparr>outputCache := (outputCache st)(mjs_rename fileName \<mapsto>
                    \<lparr>oe_content = data, oe_version = sha256_hex (h_env h) data,
                     oe_map = (if suffix ''.mjs'' (mjs_rename fileName) then oe_map c else None)\<rparr>),
                  calls := calls st @ [HostWriteFile (mjs_rename fileName) data bom]\<rparr>))
       \<and> map_extractions (snd (writeFile h fileName data bom srcs st))
           = map_extractions st +
             (if suffix ''.mjs'' (mjs_rename fileName)
                 \<and> (case outputCache st (mjs_rename fileName) of
                       None \<Rightarrow> True
                     | Some c \<Rightarrow> oe_version c \<noteq> sha256_hex (h_env h) data)
              then 1 else 0)
       \<and> (writeFile h fileName data bom srcs st = (Inr (), st1) \<longrightarrow>
            writeFile h fileName data bom' srcs' st1
              = (Inr (), st1\<lparr>calls := calls st1 @ [HostWriteFile (mjs_rename fileName) data bom']\<rparr>))"
proof -
  have 3: "writeFile h fileName data bom srcs st = (Inr (), st1) \<longrightarrow>
            writeFile h fileName data bom' srcs' st1
              = (Inr (), st1\<lparr>calls := calls st1 @ [HostWriteFile (mjs_rename fileName) data bom']\<rparr>)"
  proof
    assume w: "writeFile h fileName data bom srcs st = (Inr (), st1)"
    from writeFile_stored [OF assms w] obtain m where
      m: "outputCache st1 (mjs_rename fileName)
            = Some \<lparr>oe_content = data, oe_version = sha256_hex (h_env h) data, oe_map = m\<rparr>"
      and n: "\<not> suffix ''.mjs'' (mjs_rename fileName) \<longrightarrow> m = None"
      by blast
    let ?e = "\<lparr>oe_content = data, oe_version = sha256_hex (h_env h) data, oe_map = m\<rparr>"
    have v: "oe_version ?e = sha256_hex (h_env h) data" by simp
    note hit = writeFile_hit [OF assms m v, where bom = bom' and srcs = srcs']
    have e: "(if suffix ''.mjs'' (mjs_rename fileName) then oe_map ?e else None) = m"
      using n by simp
    have same: "(outputCache st1)(mjs_rename fileName \<mapsto> ?e) = outputCache st1"
      using m by (simp add: map_upd_triv)
    show "writeFile h fileName data bom' srcs' st1
            = (Inr (), st1\<lparr>calls := calls st1 @ [HostWriteFile (mjs_rename fileName) data bom']\<rparr>)"
      unfolding hit e same by simp
  qed
  from writeFile_hit [OF assms] map_extractions_writeFile [OF assms] 3
  show ?thesis by blast
qed

section \<open>Runs in the concrete environment\<close>

lemma sample_env: "h_env sample_host = posix_env" "h_env dts_dir_host = posix_env"
  by (simp_all add: sample_host_def dts_dir_host_def cacheCompilerHost_def Let_def)

lemma posix_env_fields:
  "ensureUnixPath posix_env p = p"
  "fileUrl posix_env p = ''file://'' @ p"
  "sha256_hex posix_env d = ''sha256:'' @ d"
  "sha1_hex posix_env d = ''sha1:'' @ d"
  "fromComment_toJSON posix_env d = Some (''map:'' @ d)"
  "host_fileExists posix_env f = (map_of files_on_disk f \<noteq> None)"
  "host_getSourceFile posix_env f v
     = (case map_of files_on_disk f of
          None \<Rightarrow> None
        | Some t \<Rightarrow> Some \<lparr>sf_fileName = f, sf_text = t, sf_version = None\<rparr>)"
  "host_readFile posix_env f = map_of files_on_disk f"
  "stylesheetProcessor posix_env
     = Some (\<lambda>f c. case c of None \<Rightarrow> Inl CollaboratorFailure | Some t \<Rightarrow> Inr t)"
  "inlineStyleLanguage posix_env = Some ''scss''"
  "path_extname posix_env p = posix_extname p"
  by (simp_all add: posix_env_def)

lemma sample_host_flat:
  "flatModuleFileDtsPath sample_host = ''/dist/sample.d.ts''"
  "flatModuleFileDtsFilename sample_host = ''sample.d.ts''"
  "hasIndexEntryFile sample_host = False"
  "h_entryPointUrl sample_host = ''ng://sample''"
  by (simp_all add: sample_host_def cacheCompilerHost_def posix_env_def last_segment_def Let_def)

lemma dts_dir_host_flat:
  "flatModuleFileDtsPath dts_dir_host = ''/out/lib.d.ts/lib.d.ts''"
  "flatModuleFileDtsFilename dts_dir_host = ''lib.d.ts''"
  "hasIndexEntryFile dts_dir_host = False"
  by (simp_all add: dts_dir_host_def cacheCompilerHost_def posix_env_def last_segment_def Let_def)

lemmas sample_defs = sample_env posix_env_fields sample_host_flat files_on_disk_def
  initial_state_def last_segment_def posix_extname_def a_ts_def public_api_ts_def

lemmas host_defs = fileExists_def getSourceFile_def readFile_def readResource_def
  transformResource_def inline_style_def writeFile_def getOrCreate_def empty_entry_def
  record_declaration_def renamed_declaration_def output_map_def mjs_rename_def
  run_ops_def truthy_def is_template_def Let_def suffix_to_prefix

lemma warm_cache:
  "cached_exists (sourcesFileCache warm_state) ''/src/a.ts'' = Some True"
  "cached_sourceFile (sourcesFileCache warm_state) ''/src/a.ts'' = Some a_ts"
  "cached_content (sourcesFileCache warm_state) ''/src/a.ts'' = Some ''export const a = 1;''"
  by (simp_all add: warm_state_def sample_defs host_defs cached_exists_def
      cached_sourceFile_def cached_content_def)

text \<open>
  Claim C6 on a run: \<open>/src/a.ts\<close> is checked, parsed and read once; after a resource
  read of another path, two emissions and another check, the three operations answer
  from the cache what was first cached.
\<close>

theorem populated_fields_served_from_cache_witness:
  "cached_exists (sourcesFileCache warm_state) ''/src/a.ts'' = Some True
   \<and> list_all (\<lambda>op. \<not> overwrites_exists sample_host ''/src/a.ts'' op) later_ops
   \<and> cached_sourceFile (sourcesFileCache warm_state) ''/src/a.ts'' = Some a_ts
   \<and> cached_content (sourcesFileCache warm_state) ''/src/a.ts'' = Some ''export const a = 1;''
   \<and> fileExists sample_host ''/src/a.ts'' (run_ops sample_host later_ops warm_state)
       = (True, run_ops sample_host later_ops warm_state)
   \<and> fst (getSourceFile sample_host ''/src/a.ts'' 5 (run_ops sample_host later_ops warm_state))
       = Some a_ts
   \<and> calls (snd (getSourceFile sample_host ''/src/a.ts'' 5
                (run_ops sample_host later_ops warm_state)))
       = calls (run_ops sample_host later_ops warm_state)
   \<and> fst (readFile sample_host ''/src/a.ts'' (run_ops sample_host later_ops warm_state))
       = Some ''export const a = 1;''
   \<and> calls (snd (readFile sample_host ''/src/a.ts'' (run_ops sample_host later_ops warm_state)))
       = calls (run_ops sample_host later_ops warm_state)"
proof -
  have l: "list_all (\<lambda>op. \<not> overwrites_exists sample_host ''/src/a.ts'' op) later_ops"
    by (simp add: later_ops_def overwrites_exists_def)
  from populated_fields_served_from_cache [where st = warm_state and f = "''/src/a.ts''"
      and b = True and h = sample_host and ops = later_ops and ops' = later_ops and sf = a_ts
      and v = 5 and c = "''export const a = 1;''"] warm_cache l
  show ?thesis by auto
qed

text \<open>
  The existence flag of one path, answered twice from the initial state with no
  invalidation in between: \<open>false\<close> from the underlying host, cached; then \<open>true\<close>
  from the cache, after an inline style was cached under the path.
\<close>

theorem fileExists_answer_changes_after_transformResource:
  "fst (fileExists sample_host inline_path (initial_state :: unit host_state)) = False
   \<and> cached_exists
         (sourcesFileCache (snd (fileExists sample_host inline_path
            (initial_state :: unit host_state)))) inline_path
       = Some False
   \<and> fst (fileExists sample_host inline_path
            (run_ops sample_host [TransformResource ''a { color: red }'' inline_context]
               (snd (fileExists sample_host inline_path (initial_state :: unit host_state)))))
       = True"
  by (simp add: inline_path_def inline_context_def sample_defs host_defs cached_exists_def
      case_prod_beta)

lemma declared_cache:
  "cached_declarationFileName (sourcesFileCache declared_state) ''/src/a.ts'' = Some ''/dist/a.d.ts''"
  "cached_declarationFileName (sourcesFileCache declared_state) ''/src/public_api.ts'' = None"
  by (simp_all add: declared_state_def sample_defs host_defs cached_declarationFileName_def)

text \<open>
  Claim C10 on a run: after the declaration of \<open>/src/a.ts\<close> was emitted, the
  flattened declaration covers \<open>/src/public_api.ts\<close> and \<open>/src/a.ts\<close>; the first
  gets the renamed path, the second keeps the path it has.
\<close>

theorem declaration_path_recorded_once_witness:
  "suffix ''.d.ts'' ''/dist/sample.d.ts''
   \<and> hasIndexEntryFile sample_host = False
   \<and> public_api_ts \<in> set [public_api_ts, a_ts]
   \<and> truthy (cached_declarationFileName (sourcesFileCache declared_state) ''/src/a.ts'')
   \<and> cached_declarationFileName
         (sourcesFileCache (snd (writeFile sample_host ''/dist/sample.d.ts''
            ''export * from \"./a\";'' False (Some [public_api_ts, a_ts]) declared_state)))
         ''/src/public_api.ts''
       = Some ''/dist/index.d.ts''
   \<and> cached_declarationFileName (sourcesFileCache (run_ops sample_host later_ops declared_state))
         ''/src/a.ts''
       = Some ''/dist/a.d.ts''"
proof -
  have s: "suffix ''.d.ts'' ''/dist/sample.d.ts''" by (simp add: suffix_to_prefix)
  have n: "\<not> (''/dist/sample.d.ts'' = flatModuleFileDtsPath sample_host
              \<and> hasIndexEntryFile sample_host)"
    by (simp add: sample_host_flat)
  have m: "public_api_ts \<in> set [public_api_ts, a_ts]" by simp
  have r: "renamed_declaration sample_host ''/dist/sample.d.ts'' = ''/dist/index.d.ts''"
    by (simp add: renamed_declaration_def sample_host_flat)
  have f: "sf_fileName public_api_ts = ''/src/public_api.ts''" by (simp add: public_api_ts_def)
  from declaration_path_recorded_once [OF s n m, of "''export * from \"./a\";''" False
      declared_state "''/src/a.ts''" later_ops]
    declared_cache r f s m
  show ?thesis by (simp add: sample_host_flat sample_env posix_env_fields truthy_def)
qed

lemma styled_cache:
  "cached_content (sourcesFileCache styled_state) inline_path = Some ''a { color: red }''"
  by (simp add: styled_state_def inline_path_def inline_context_def sample_defs host_defs
      cached_content_def case_prod_beta)

lemma inline_path_missing: "\<not> host_fileExists (h_env sample_host) inline_path"
  by (simp add: inline_path_def sample_defs)

text \<open>
  Claim C8 on a run: the synthetic path of an inline style is no file on disk. Read
  as a resource on a fresh host it throws; read after the inline style was
  transformed it returns the cached content.
\<close>

theorem readResource_missing_file_witness:
  "\<not> host_fileExists (h_env sample_host) inline_path
   \<and> cached_content (sourcesFileCache (initial_state :: unit host_state)) inline_path = None
   \<and> fst (readResource sample_host inline_path (initial_state :: unit host_state))
       = Inl (Error (''Cannot read file '' @ inline_path @ ''.''))
   \<and> cached_content (sourcesFileCache
         (snd (readResource sample_host inline_path (initial_state :: unit host_state)))) inline_path
       = None
   \<and> cached_content (sourcesFileCache styled_state) inline_path = Some ''a { color: red }''
   \<and> fst (readResource sample_host inline_path styled_state) = Inr (Some ''a { color: red }'')"
proof -
  have i: "cached_content (sourcesFileCache (initial_state :: unit host_state)) inline_path = None"
    by (simp add: initial_state_def cached_content_def)
  from readResource_missing_file [OF inline_path_missing,
      of "initial_state :: unit host_state" styled_state "''a { color: red }''"]
    i styled_cache inline_path_missing
  show ?thesis by simp
qed

text \<open>
  The same run, from the initial state: \<open>readResource\<close> returns a content for a
  path whose file does not exist.
\<close>

theorem readResource_returns_cached_content_of_missing_file:
  "\<not> host_fileExists (h_env sample_host) inline_path
   \<and> fst (readResource sample_host inline_path
            (snd (transformResource sample_host ''a { color: red }'' inline_context
                    (initial_state :: unit host_state))))
       = Inr (Some ''a { color: red }'')"
  by (simp add: inline_path_def inline_context_def sample_defs host_defs case_prod_beta)

lemma emitted_cache:
  "outputCache emitted_state ''/dist/esm/a.mjs''
     = Some \<lparr>oe_content = ''export const a = 1;'', oe_version = ''sha256:export const a = 1;'',
             oe_map = Some ''map:export const a = 1;''\<rparr>"
  "map_extractions emitted_state = 1"
  by (simp_all add: emitted_state_def sample_defs host_defs map_extractions_def is_extraction_def)

text \<open>
  Claim C2 on a run: \<open>/dist/esm/a.js\<close> is emitted twice with the same data; the map
  is extracted once.
\<close>

theorem writeFile_map_hash_gated_witness:
  "\<not> suffix ''.d.ts'' ''/dist/esm/a.js''
   \<and> mjs_rename ''/dist/esm/a.js'' = ''/dist/esm/a.mjs''
   \<and> writeFile sample_host ''/dist/esm/a.js'' ''export const a = 1;'' False (Some [a_ts])
         initial_state = (Inr (), emitted_state)
   \<and> map_extractions emitted_state = 1
   \<and> map_extractions (snd (writeFile sample_host ''/dist/esm/a.js'' ''export const a = 1;'' True
         None emitted_state)) = 1
   \<and> writeFile sample_host ''/dist/esm/a.js'' ''export const a = 1;'' True None emitted_state
       = (Inr (), emitted_state\<lparr>calls := calls emitted_state @
            [HostWriteFile ''/dist/esm/a.mjs'' ''export const a = 1;'' True]\<rparr>)"
proof -
  have s: "\<not> suffix ''.d.ts'' ''/dist/esm/a.js''" by (simp add: suffix_to_prefix)
  have r: "mjs_rename ''/dist/esm/a.js'' = ''/dist/esm/a.mjs''"
    by (simp add: mjs_rename_def suffix_to_prefix)
  have w: "writeFile sample_host ''/dist/esm/a.js'' ''export const a = 1;'' False (Some [a_ts])
         (initial_state :: unit host_state) = (Inr (), emitted_state)"
    by (simp add: emitted_state_def sample_defs host_defs)
  have v: "sha256_hex (h_env sample_host) ''export const a = 1;'' = ''sha256:export const a = 1;''"
    by (simp add: sample_defs)
  from writeFile_map_hash_gated [OF s, of emitted_state _ sample_host "''export const a = 1;''"
      True None emitted_state True None]
    emitted_cache r v s
  have "map_extractions (snd (writeFile sample_host ''/dist/esm/a.js'' ''export const a = 1;'' True
         None emitted_state)) = 1" by (simp add: suffix_to_prefix)
  moreover
  from writeFile_map_hash_gated [OF s, of initial_state _ sample_host "''export const a = 1;''"
      False "Some [a_ts]" emitted_state True None] w r
  have "writeFile sample_host ''/dist/esm/a.js'' ''export const a = 1;'' True None emitted_state
       = (Inr (), emitted_state\<lparr>calls := calls emitted_state @
            [HostWriteFile ''/dist/esm/a.mjs'' ''export const a = 1;'' True]\<rparr>)" by simp
  ultimately show ?thesis using s r w emitted_cache by simp
qed

section \<open>The flattened declaration\<close>

text \<open>
  The flattened declaration at the flat-module path: suppressed when the entry file
  is \<open>index.ts\<close>; otherwise written, with its sources' declaration paths recorded,
  under the name in which the first occurrence of the flat-module declaration file
  name is replaced by \<open>index.d.ts\<close>. That is the file \<open>index.d.ts\<close> of the same
  directory when the file name does not occur earlier in the path.
\<close>

lemma writeFile_flat_declaration:
  assumes "suffix ''.d.ts'' (flatModuleFileDtsPath h)"
  shows "writeFile h (flatModuleFileDtsPath h) data bom (Some sources) st
       = (if hasIndexEntryFile h then (Inr (), st)
          else
            (Inr (),
             st\<lparr>sourcesFileCache :=
                  foldl (record_declaration (ensureUnixPath (h_env h)
                      (replace_first (flatModuleFileDtsFilename h) ''index.d.ts''
                         (flatModuleFileDtsPath h))))
                    (sourcesFileCache st) sources,
                calls := calls st @
                  [HostWriteFile
                     (replace_first (flatModuleFileDtsFilename h) ''index.d.ts''
                        (flatModuleFileDtsPath h))
                     data bom]\<rparr>))"
  using assms by (simp add: writeFile_def renamed_declaration_def Let_def)

lemma replace_first_last_occurrence:
  assumes "\<forall>i<length dir. \<not> prefix pat (drop i (dir @ pat))"
  shows "replace_first pat rep (dir @ pat) = dir @ rep"
  using assms
proof (induction dir)
  case Nil
  show ?case by (cases pat) simp_all
next
  case (Cons c dir)
  from Cons.prems have "\<not> prefix pat (drop 0 ((c # dir) @ pat))" by blast
  then have here: "\<not> prefix pat (c # dir @ pat)" by simp
  have "\<forall>i<length dir. \<not> prefix pat (drop i (dir @ pat))"
  proof (intro allI impI)
    fix i assume "i < length dir"
    then have "Suc i < length (c # dir)" by simp
    with Cons.prems have "\<not> prefix pat (drop (Suc i) ((c # dir) @ pat))" by blast
    then show "\<not> prefix pat (drop i (dir @ pat))" by simp
  qed
  from Cons.IH [OF this] here show ?case by simp
qed

text \<open>
  Claim C1, at an input where the code departs from it. The destination directory of
  the library \<open>lib\<close> is \<open>/out/lib.d.ts\<close> and the entry file is not \<open>index.ts\<close>. The
  flattened declaration \<open>/out/lib.d.ts/lib.d.ts\<close> is not emitted as
  \<open>/out/lib.d.ts/index.d.ts\<close>: the replacement hits the directory, and the file is
  written, still named \<open>lib.d.ts\<close>, into the directory \<open>/out/index.d.ts\<close>.
\<close>

theorem flat_declaration_written_under_renamed_directory:
  "flatModuleFileDtsPath dts_dir_host = ''/out/lib.d.ts/lib.d.ts''
   \<and> hasIndexEntryFile dts_dir_host = False
   \<and> writeFile dts_dir_host ''/out/lib.d.ts/lib.d.ts'' ''export * from \"./public_api\";'' False
        (Some [public_api_ts]) (initial_state :: unit host_state)
      = (Inr (),
         initial_state
           \<lparr>sourcesFileCache :=
              [''/src/public_api.ts'' \<mapsto>
                 empty_entry\<lparr>ce_declarationFileName := Some ''/out/index.d.ts/lib.d.ts''\<rparr>],
            calls := [HostWriteFile ''/out/index.d.ts/lib.d.ts''
                        ''export * from \"./public_api\";'' False]\<rparr>)"
  by (simp add: dts_dir_host_flat sample_env posix_env_fields
      public_api_ts_def initial_state_def writeFile_def renamed_declaration_def
      record_declaration_def getOrCreate_def truthy_def empty_entry_def suffix_to_prefix Let_def)

end
